theory Spec2Isabelle
  imports Complex_Main
begin

section \<open>Two-component vectors of the shaders\<close>

text \<open>
  The shaders compute on \<^verbatim>\<open>vec2\<close> values. Floating-point numbers are idealised as
  reals throughout; rounding of the 32-bit and mediump arithmetic is not modelled.
\<close>

type_synonym vec2 = "real \<times> real"

definition add2 :: "vec2 \<Rightarrow> vec2 \<Rightarrow> vec2" where
  "add2 a b = (fst a + fst b, snd a + snd b)"

definition sub2 :: "vec2 \<Rightarrow> vec2 \<Rightarrow> vec2" where
  "sub2 a b = (fst a - fst b, snd a - snd b)"

definition scale2 :: "real \<Rightarrow> vec2 \<Rightarrow> vec2" where
  "scale2 k a = (k * fst a, k * snd a)"

definition dot2 :: "vec2 \<Rightarrow> vec2 \<Rightarrow> real" where
  "dot2 a b = fst a * fst b + snd a * snd b"

definition length2 :: "vec2 \<Rightarrow> real" where
  "length2 a = sqrt (dot2 a a)"

text \<open>
  GLSL \<^verbatim>\<open>normalize(v)\<close> is \<^verbatim>\<open>v / length(v)\<close>, for a vector that is not zero. Where the
  argument can be zero, the shaders below go through \<open>normalizeNaN\<close>.
\<close>

definition normalize2 :: "vec2 \<Rightarrow> vec2" where
  "normalize2 v = scale2 (1 / length2 v) v"

text \<open>GLSL \<^verbatim>\<open>reflect(I, N) = I - 2.0 * dot(N, I) * N\<close>.\<close>

definition reflect2 :: "vec2 \<Rightarrow> vec2 \<Rightarrow> vec2" where
  "reflect2 i n = sub2 i (scale2 (2 * dot2 n i) n)"

section \<open>World constants of the particle shaders\<close>

text \<open>
  \<^verbatim>\<open>Particles.constructor\<close> derives the constants from the drawing buffer size and
  \<^verbatim>\<open>ParticlesShaders.setWorldSize\<close> pastes them into the shader source, the bandwidth
  and the maximal speed through \<^verbatim>\<open>toFixed(1)\<close>, which rounds to one decimal (written
  here for the non-negative values that occur).
\<close>

record world =
  WORLD_SIZE_x :: real
  WORLD_SIZE_y :: real
  POS_BANDWIDTH :: real
  MAX_SPEED :: real

definition toFixed1 :: "real \<Rightarrow> real" where
  "toFixed1 v = of_int \<lfloor>10 * v + 1 / 2\<rfloor> / 10"

definition setWorldSize :: "nat \<Rightarrow> nat \<Rightarrow> real \<Rightarrow> real \<Rightarrow> world" where
  "setWorldSize width height posBandwidth maxSpeed =
     \<lparr> WORLD_SIZE_x = real width, WORLD_SIZE_y = real height,
       POS_BANDWIDTH = toFixed1 posBandwidth, MAX_SPEED = toFixed1 maxSpeed \<rparr>"

definition worldOf :: "nat \<Rightarrow> nat \<Rightarrow> world" where
  "worldOf width height =
     setWorldSize width height (1.2 * real (max width height)) (0.5 * real (min width height))"

definition WORLD_SIZE :: "world \<Rightarrow> vec2" where
  "WORLD_SIZE c = (WORLD_SIZE_x c, WORLD_SIZE_y c)"

section \<open>Helper functions of the shaders\<close>

definition decodeObstacle :: "vec2 \<Rightarrow> vec2" where
  "decodeObstacle texel_rg = (2 * fst texel_rg - 1, 2 * snd texel_rg - 1)"

definition random_glsl :: "vec2 \<Rightarrow> real" where
  "random_glsl co = frac (sin (dot2 co (12.9898, 78.233)) * 43758.5453)"

section \<open>The obstacle texture\<close>

text \<open>
  A texture is its size and its texels in row-major order. A texel is the pair of
  normalised red and green channel values the sampler returns for it, so the byte
  \<open>b\<close> of an RG8 upload or store is the value \<open>b / 255\<close>.
\<close>

record texture =
  tex_width :: nat
  tex_height :: nat
  tex_data :: "vec2 list"

text \<open>The loop of \<^verbatim>\<open>ObstacleMap.initTexture\<close> that pushes the pair 127, 127 per texel.\<close>

function texelDataLoop :: "nat \<Rightarrow> nat \<Rightarrow> nat list \<Rightarrow> nat list" where
  "texelDataLoop i n texelData =
     (if i < n then texelDataLoop (i + 1) n (texelData @ [127, 127]) else texelData)"
  by pat_completeness auto
termination
  by (relation "measure (\<lambda>(i, n, texelData). n - i)") auto

declare texelDataLoop.simps [simp del]

definition texImage2D_RG8 :: "nat \<Rightarrow> nat \<Rightarrow> nat list \<Rightarrow> texture" where
  "texImage2D_RG8 width height bytes =
     \<lparr> tex_width = width, tex_height = height,
       tex_data = map (\<lambda>k. (real (bytes ! (2 * k)) / 255, real (bytes ! (2 * k + 1)) / 255))
                      [0 ..< width * height] \<rparr>"

definition initTexture :: "nat \<Rightarrow> nat \<Rightarrow> texture" where
  "initTexture width height = texImage2D_RG8 width height (texelDataLoop 0 (width * height) [])"

text \<open>
  Sampling with the state \<^verbatim>\<open>initTexture\<close> sets: \<^verbatim>\<open>LINEAR\<close> filtering and
  \<^verbatim>\<open>CLAMP_TO_EDGE\<close> wrapping, that is the bilinear blend of the four texels around the
  coordinate, with texel indices clamped to the texture.
\<close>

definition clampIndex :: "int \<Rightarrow> nat \<Rightarrow> nat" where
  "clampIndex i n = nat (max 0 (min i (int n - 1)))"

definition texelFetch :: "texture \<Rightarrow> nat \<Rightarrow> nat \<Rightarrow> vec2" where
  "texelFetch t i j = tex_data t ! (j * tex_width t + i)"

definition texture2D :: "texture \<Rightarrow> vec2 \<Rightarrow> vec2" where
  "texture2D t coord =
     (let u = fst coord * real (tex_width t) - 1 / 2;
          v = snd coord * real (tex_height t) - 1 / 2;
          i0 = clampIndex \<lfloor>u\<rfloor> (tex_width t);
          i1 = clampIndex (\<lfloor>u\<rfloor> + 1) (tex_width t);
          j0 = clampIndex \<lfloor>v\<rfloor> (tex_height t);
          j1 = clampIndex (\<lfloor>v\<rfloor> + 1) (tex_height t);
          a = frac u;
          b = frac v
      in add2 (add2 (scale2 ((1 - a) * (1 - b)) (texelFetch t i0 j0))
                    (scale2 (a * (1 - b)) (texelFetch t i1 j0)))
              (add2 (scale2 ((1 - a) * b) (texelFetch t i0 j1))
                    (scale2 (a * b) (texelFetch t i1 j1))))"

text \<open>
  A texture as the program holds it: of positive size, with one texel per pixel and every
  channel in \<open>[0, 1]\<close>, as any byte \<open>b / 255\<close> is.
\<close>

definition texelsInRange :: "texture \<Rightarrow> bool" where
  "texelsInRange t \<longleftrightarrow>
     0 < tex_width t \<and> 0 < tex_height t
     \<and> length (tex_data t) = tex_width t * tex_height t
     \<and> (\<forall>p \<in> set (tex_data t). 0 \<le> fst p \<and> fst p \<le> 1 \<and> 0 \<le> snd p \<and> snd p \<le> 1)"

section \<open>The particle update shader\<close>

text \<open>
  The blocks of \<^verbatim>\<open>main\<close> in \<^verbatim>\<open>updateVertRawStr\<close>, in source order. A particle is
  reinjected when \<^verbatim>\<open>pos.y < -0.5 * WORLD_SIZE.y\<close>.
\<close>

definition belowWorld :: "world \<Rightarrow> vec2 \<Rightarrow> bool" where
  "belowWorld c pos \<longleftrightarrow> snd pos < - 0.5 * WORLD_SIZE_y c"

definition reinjectVel :: "world \<Rightarrow> vec2 \<Rightarrow> vec2 \<Rightarrow> vec2 \<Rightarrow> vec2" where
  "reinjectVel c pos vel nextVel =
     (if belowWorld c pos
      then (0.1 * MAX_SPEED c * (2 * random_glsl (scale2 100 pos) - 1),
            random_glsl (add2 pos vel))
      else nextVel)"

definition obstacleCoords :: "world \<Rightarrow> vec2 \<Rightarrow> vec2" where
  "obstacleCoords c p = (fst p / WORLD_SIZE_x c + 0.5, snd p / WORLD_SIZE_y c + 0.5)"

definition bounce :: "world \<Rightarrow> vec2 \<Rightarrow> vec2 \<Rightarrow> vec2" where
  "bounce c obstacleNormal nextVel =
     (if dot2 obstacleNormal obstacleNormal > 0.1
      then (if dot2 nextVel obstacleNormal < 0
            then (let r = reflect2 nextVel (normalize2 obstacleNormal)
                  in scale2 (min 1 (0.1 * MAX_SPEED c / length2 r)) r)
            else nextVel)
      else nextVel)"

text \<open>
  \<^verbatim>\<open>nextVel *= min(1.0, MAX_SPEED / length(nextVel))\<close>. For a zero velocity the quotient
  is not a finite number and \<^verbatim>\<open>min\<close> returns its first argument, 1.0.
\<close>

definition clampSpeed :: "world \<Rightarrow> vec2 \<Rightarrow> vec2" where
  "clampSpeed c nextVel =
     scale2 (if length2 nextVel = 0 then 1 else min 1 (MAX_SPEED c / length2 nextVel)) nextVel"

definition reinjectPos :: "world \<Rightarrow> vec2 \<Rightarrow> vec2 \<Rightarrow> vec2 \<Rightarrow> vec2" where
  "reinjectPos c pos vel nextPos =
     (if belowWorld c pos
      then ((random_glsl (add2 pos vel) - 0.5) * WORLD_SIZE_x c,
            snd nextPos + (WORLD_SIZE_y c
               + 0.5 * random_glsl pos * (POS_BANDWIDTH c - WORLD_SIZE_y c)))
      else nextPos)"

definition wrapPos :: "world \<Rightarrow> vec2 \<Rightarrow> vec2" where
  "wrapPos c nextPos =
     (if fst nextPos < - 0.5 * POS_BANDWIDTH c then (fst nextPos + POS_BANDWIDTH c, snd nextPos)
      else if fst nextPos > 0.5 * POS_BANDWIDTH c then (fst nextPos - POS_BANDWIDTH c, snd nextPos)
      else nextPos)"

text \<open>The velocity written to \<^verbatim>\<open>aNextVel\<close>.\<close>

definition nextVelocity :: "world \<Rightarrow> texture \<Rightarrow> real \<Rightarrow> vec2 \<Rightarrow> vec2 \<Rightarrow> vec2 \<Rightarrow> vec2" where
  "nextVelocity c uObstaclesBuffer uDt uAcceleration aPos aVel =
     (let pos = aPos; vel = aVel; acc = uAcceleration;
          nextVel = add2 vel (scale2 uDt acc);
          nextVel = reinjectVel c pos vel nextVel;
          obstacleNormal = decodeObstacle (texture2D uObstaclesBuffer (obstacleCoords c pos));
          nextVel = bounce c obstacleNormal nextVel
      in clampSpeed c nextVel)"

text \<open>The position before the reinjection override and the wrap: integration and nudge.\<close>

definition nudgedPos :: "world \<Rightarrow> texture \<Rightarrow> real \<Rightarrow> vec2 \<Rightarrow> vec2 \<Rightarrow> vec2" where
  "nudgedPos c uObstaclesBuffer uDt pos nextVel =
     (let nextPos = add2 pos (scale2 uDt nextVel);
          obstacleNormal = decodeObstacle (texture2D uObstaclesBuffer (obstacleCoords c nextPos))
      in add2 nextPos (scale2 uDt obstacleNormal))"

text \<open>The whole vertex shader: the pair \<^verbatim>\<open>(aNextPos, aNextVel)\<close>.\<close>

definition updateVert :: "world \<Rightarrow> texture \<Rightarrow> real \<Rightarrow> vec2 \<Rightarrow> vec2 \<Rightarrow> vec2 \<Rightarrow> vec2 \<times> vec2" where
  "updateVert c uObstaclesBuffer uDt uAcceleration aPos aVel =
     (let pos = aPos; vel = aVel;
          nextVel = nextVelocity c uObstaclesBuffer uDt uAcceleration aPos aVel;
          nextPos = nudgedPos c uObstaclesBuffer uDt pos nextVel;
          nextPos = reinjectPos c pos vel nextPos;
          nextPos = wrapPos c nextPos
      in (nextPos, nextVel))"

section \<open>The particle buffers\<close>

text \<open>
  The state of a \<^verbatim>\<open>Particles\<close> object. A buffer is the flat list of floats uploaded to
  it, two per particle; \<^verbatim>\<open>_posVBO\<close> and \<^verbatim>\<open>_velVBO\<close> are two-element arrays of
  buffers, indexed by the generation. \<open>shaderWorld\<close> holds the constants that
  \<^verbatim>\<open>ParticlesShaders.setWorldSize\<close> pasted into the shaders.
\<close>

record particles =
  worldSize_width :: nat
  worldSize_height :: nat
  posBandwidth :: real
  maxSpeed :: real
  shaderWorld :: world
  nbParts :: nat
  posVBO :: "real list list"
  velVBO :: "real list list"
  currIndex :: nat
  acceleration :: vec2
  speed :: real

text \<open>
  The first loop of \<^verbatim>\<open>reset\<close>. \<open>rnd k\<close> is the value of the \<open>k\<close>-th call of
  \<^verbatim>\<open>Math.random()\<close> made by this call of \<^verbatim>\<open>reset\<close>, four per particle.
\<close>

function resetLoop ::
  "(nat \<Rightarrow> real) \<Rightarrow> particles \<Rightarrow> nat \<Rightarrow> real list \<Rightarrow> real list \<Rightarrow> real list \<times> real list" where
  "resetLoop rnd this i pos vel =
     (if i < nbParts this
      then resetLoop rnd this (i + 1)
             (pos @ [(rnd (4 * i) - 0.5) * real (worldSize_width this),
                     (rnd (4 * i + 1) - 0.5) * real (worldSize_height this)])
             (vel @ [2 * (rnd (4 * i + 2) - 0.5) * maxSpeed this,
                     2 * (rnd (4 * i + 3) - 0.5) * maxSpeed this])
      else (pos, vel))"
  by pat_completeness auto
termination
  by (relation "measure (\<lambda>(rnd, this, i, pos, vel). nbParts this - i)") auto

declare resetLoop.simps [simp del]

text \<open>
  \<^verbatim>\<open>reset\<close> assigns \<^verbatim>\<open>_nbParts\<close> and creates both generations of buffers from the same
  two arrays. It has no assignment to \<^verbatim>\<open>_currIndex\<close>.
\<close>

definition reset :: "particles \<Rightarrow> (nat \<Rightarrow> real) \<Rightarrow> nat \<Rightarrow> particles" where
  "reset this rnd nb =
     (let this = this\<lparr>nbParts := nb\<rparr>;
          (pos, vel) = resetLoop rnd this 0 [] []
      in this\<lparr>posVBO := [pos, pos], velVBO := [vel, vel]\<rparr>)"

text \<open>
  The constructor. Fields that JavaScript leaves unassigned until \<^verbatim>\<open>reset\<close> or the
  last lines of the constructor run start at an arbitrary placeholder here.
\<close>

definition newParticles :: "nat \<Rightarrow> nat \<Rightarrow> (nat \<Rightarrow> real) \<Rightarrow> nat \<Rightarrow> particles" where
  "newParticles width height rnd nb =
     (let this = \<lparr> worldSize_width = width, worldSize_height = height,
                   posBandwidth = 1.2 * real (max width height),
                   maxSpeed = 0.5 * real (min width height),
                   shaderWorld = worldOf width height,
                   nbParts = 0, posVBO = [], velVBO = [], currIndex = 0,
                   acceleration = (0, 0), speed = 0 \<rparr>;
          this = reset this rnd nb
      in this\<lparr>currIndex := 0, acceleration := (0, - 10000), speed := 1\<rparr>)"

definition nextIndex :: "particles \<Rightarrow> nat" where
  "nextIndex this = (currIndex this + 1) mod 2"

definition switchBuffers :: "particles \<Rightarrow> particles" where
  "switchBuffers this = this\<lparr>currIndex := nextIndex this\<rparr>"

text \<open>The vertex array reads a buffer two floats at a time; transform feedback writes
  the captured pairs back in order.\<close>

fun attribs2 :: "real list \<Rightarrow> vec2 list" where
  "attribs2 (x # y # rest) = (x, y) # attribs2 rest"
| "attribs2 _ = []"

definition captured :: "vec2 list \<Rightarrow> real list" where
  "captured vs = concat (map (\<lambda>v. [fst v, snd v]) vs)"

definition update :: "particles \<Rightarrow> texture \<Rightarrow> real \<Rightarrow> particles" where
  "update this obstacleMapTexture dt =
     (let uDt = speed this * dt;
          srcIndex = currIndex this;
          dstIndex = nextIndex this;
          vertices = take (nbParts this)
                       (zip (attribs2 (posVBO this ! srcIndex)) (attribs2 (velVBO this ! srcIndex)));
          outs = map (\<lambda>(aPos, aVel).
                        updateVert (shaderWorld this) obstacleMapTexture uDt
                          (acceleration this) aPos aVel) vertices;
          this = this\<lparr> posVBO := (posVBO this)[dstIndex := captured (map fst outs)],
                       velVBO := (velVBO this)[dstIndex := captured (map snd outs)] \<rparr>
      in switchBuffers this)"

section \<open>The blur kernel\<close>

definition kernelFunction :: "real \<Rightarrow> real" where
  "kernelFunction x = exp (- 4 * x * x)"

text \<open>The value pushed by the first loop of \<^verbatim>\<open>setKernelSize\<close> at index \<open>i\<close>.\<close>

definition kernelSample :: "nat \<Rightarrow> nat \<Rightarrow> real" where
  "kernelSample kernelSize i = kernelFunction (2 * real i / real kernelSize - 1)"

text \<open>The two loops of \<^verbatim>\<open>Fluidify.setKernelSize\<close>; its variables \<^verbatim>\<open>kernel\<close> and
  \<^verbatim>\<open>total\<close> are \<open>kernelArr\<close> and \<open>totalSum\<close> here.\<close>

function kernelLoop1 :: "nat \<Rightarrow> nat \<Rightarrow> real list \<Rightarrow> real \<Rightarrow> real list \<times> real" where
  "kernelLoop1 kernelSize i kernelArr totalSum =
     (if i < kernelSize
      then (let x = 2 * real i / real kernelSize - 1;
                kernelArr = kernelArr @ [kernelFunction x];
                totalSum = totalSum + kernelArr ! i
            in kernelLoop1 kernelSize (i + 1) kernelArr totalSum)
      else (kernelArr, totalSum))"
  by pat_completeness auto
termination
  by (relation "measure (\<lambda>(kernelSize, i, kernelArr, totalSum). kernelSize - i)") auto

declare kernelLoop1.simps [simp del]

function kernelLoop2 :: "nat \<Rightarrow> nat \<Rightarrow> real list \<Rightarrow> real \<Rightarrow> real list" where
  "kernelLoop2 kernelSize i kernelArr totalSum =
     (if i < kernelSize
      then kernelLoop2 kernelSize (i + 1) (kernelArr[i := kernelArr ! i / totalSum]) totalSum
      else kernelArr)"
  by pat_completeness auto
termination
  by (relation "measure (\<lambda>(kernelSize, i, kernelArr, totalSum). kernelSize - i)") auto

declare kernelLoop2.simps [simp del]

definition setKernelSize :: "nat \<Rightarrow> real list" where
  "setKernelSize kernelSize =
     (let (kernelArr, totalSum) = kernelLoop1 kernelSize 0 [] 0
      in kernelLoop2 kernelSize 0 kernelArr totalSum)"

section \<open>The display shader of the fluid compositor\<close>

type_synonym vec3 = "real \<times> real \<times> real"
type_synonym vec4 = "real \<times> real \<times> real \<times> real"

definition vec4_a :: "vec4 \<Rightarrow> real" where
  "vec4_a t = snd (snd (snd t))"

definition add4 :: "vec4 \<Rightarrow> vec4 \<Rightarrow> vec4" where
  "add4 p q = (case p of (pr, pg, pb, pa) \<Rightarrow> case q of (qr, qg, qb, qa) \<Rightarrow>
                 (pr + qr, pg + qg, pb + qb, pa + qa))"

definition scale4 :: "real \<Rightarrow> vec4 \<Rightarrow> vec4" where
  "scale4 k p = (case p of (pr, pg, pb, pa) \<Rightarrow> (k * pr, k * pg, k * pb, k * pa))"

definition cross3 :: "vec3 \<Rightarrow> vec3 \<Rightarrow> vec3" where
  "cross3 p q = (case p of (px, py, pz) \<Rightarrow> case q of (qx, qy, qz) \<Rightarrow>
                   (py * qz - pz * qy, pz * qx - px * qz, px * qy - py * qx))"

definition dot3 :: "vec3 \<Rightarrow> vec3 \<Rightarrow> real" where
  "dot3 p q = (case p of (px, py, pz) \<Rightarrow> case q of (qx, qy, qz) \<Rightarrow>
                 px * qx + py * qy + pz * qz)"

definition normalize3 :: "vec3 \<Rightarrow> vec3" where
  "normalize3 p = (case p of (px, py, pz) \<Rightarrow>
                     (px / sqrt (dot3 p p), py / sqrt (dot3 p p), pz / sqrt (dot3 p p)))"

text \<open>GLSL \<^verbatim>\<open>step(edge, x)\<close> is 0.0 if \<^verbatim>\<open>x < edge\<close> and 1.0 otherwise.\<close>

definition step_glsl :: "real \<Rightarrow> real \<Rightarrow> real" where
  "step_glsl edge x = (if x < edge then 0 else 1)"

definition smoothstep :: "real \<Rightarrow> real \<Rightarrow> real \<Rightarrow> real" where
  "smoothstep edge0 edge1 x =
     (let t = min (max ((x - edge0) / (edge1 - edge0)) 0) 1 in t * t * (3 - 2 * t))"

text \<open>\<^verbatim>\<open>gl.clearColor(0.0, 0.0, 0.0, 0.0)\<close> in \<^verbatim>\<open>initGL\<close>: the colour of a pixel nothing
  was drawn on.\<close>

definition clearColor :: vec4 where
  "clearColor = (0, 0, 0, 0)"

text \<open>
  \<^verbatim>\<open>main\<close> of \<^verbatim>\<open>displayFragStr\<close> for one pixel, line by line. \<open>texel\<close> is the sample
  of the blurred buffer. The screen-space derivatives \<^verbatim>\<open>dFdx(level)\<close> and
  \<^verbatim>\<open>dFdy(level)\<close> of \<^verbatim>\<open>level = visible * texel.a\<close>, which the hardware takes from the
  neighbouring pixels, are inputs. \<^verbatim>\<open>pow(x, k)\<close> is \<open>x powr k\<close>, zero at \<open>x = 0\<close>.
\<close>

definition displayFrag :: "real \<Rightarrow> bool \<Rightarrow> bool \<Rightarrow> vec4 \<Rightarrow> real \<Rightarrow> real \<Rightarrow> vec4" where
  "displayFrag uThreshold uShowNormals uSpecular texel dFdx_level dFdy_level =
     (let visible = step_glsl uThreshold (vec4_a texel);
          color = texel;
          n = cross3 (1 / 512, 0, dFdx_level) (0, 1 / 512, dFdy_level);
          n = normalize3 n;
          color = (if uShowNormals
                   then (case n of (nx, ny, nz) \<Rightarrow>
                           (0.5 * nx + 0.5, 0.5 * ny + 0.5, 0.5 * nz + 0.5, 1))
                   else color);
          lightDir = (0.73, 0.73, - 0.73);
          specularColor = (1, 1, 1, 0);
          k = 0.1;
          specularFactor = smoothstep 0.99 1 (dot3 n lightDir);
          specular = scale4 (specularFactor powr k) specularColor;
          specular = (if \<not> uSpecular then (0, 0, 0, 0) else specular)
      in scale4 visible (add4 color specular))"

section \<open>The obstacle map\<close>

record obstacleMap =
  staticTexture :: texture
  obstTexture :: texture
  brushSize :: vec2
  FBO_width :: nat
  FBO_height :: nat

text \<open>\<^verbatim>\<open>ObstacleMap.reset\<close>: both textures are replaced by fresh ones.\<close>

definition resetObstacles :: "obstacleMap \<Rightarrow> obstacleMap" where
  "resetObstacles this =
     this\<lparr> staticTexture := initTexture (FBO_width this) (FBO_height this),
           obstTexture := initTexture (FBO_width this) (FBO_height this) \<rparr>"

text \<open>
  The vertex shader of the brush quad: for a corner \<^verbatim>\<open>aCorner\<close> in the unit square it
  gives the varying \<^verbatim>\<open>fromCenter\<close> and the point \<^verbatim>\<open>c\<close> of the target, in coordinates
  where the target is the unit square.
\<close>

definition addStaticVert :: "vec2 \<Rightarrow> vec2 \<Rightarrow> vec2 \<Rightarrow> vec2 \<times> vec2" where
  "addStaticVert uMousePos uBrushSize aCorner =
     (let fromCenter = (2 * fst aCorner - 1, 2 * snd aCorner - 1);
          c = (fst uMousePos + fst uBrushSize * (fst aCorner - 0.5),
               snd uMousePos + snd uBrushSize * (snd aCorner - 0.5))
      in (fromCenter, c))"

text \<open>
  What a fragment shader invocation leaves for its pixel: nothing (\<^verbatim>\<open>discard\<close>), the
  red and green channels of \<^verbatim>\<open>fragColor\<close>, or a colour whose channels are not numbers.
\<close>

datatype fragment = Discarded | Color vec2 | ColorNaN

text \<open>
  \<^verbatim>\<open>normalize\<close> where its argument may be the zero vector: it divides zero by a zero
  length, which gives no number in either component (\<open>None\<close>).
\<close>

definition normalizeNaN :: "vec2 \<Rightarrow> vec2 option" where
  "normalizeNaN v = (if length2 v = 0 then None else Some (normalize2 v))"

definition addStaticFrag :: "vec2 \<Rightarrow> fragment" where
  "addStaticFrag fromCenter =
     (if dot2 fromCenter fromCenter > 1 then Discarded
      else (case normalizeNaN fromCenter of
              None \<Rightarrow> ColorNaN
            | Some normal \<Rightarrow> Color (0.5 * fst normal + 0.5, 0.5 * snd normal + 0.5)))"

text \<open>
  The store of a colour into an RG8 target: each channel is clamped to \<open>[0, 1]\<close>, scaled
  by 255 and rounded to the nearest byte \<open>b\<close>; the texel then reads \<open>b / 255\<close>.
\<close>

definition unorm8 :: "real \<Rightarrow> nat" where
  "unorm8 f = nat \<lfloor>255 * min (max f 0) 1 + 1 / 2\<rfloor>"

definition storeRG8 :: "vec2 \<Rightarrow> vec2" where
  "storeRG8 rg = (real (unorm8 (fst rg)) / 255, real (unorm8 (snd rg)) / 255)"

text \<open>
  The centre of pixel \<open>k\<close> (row-major) of a \<open>width\<close> by \<open>height\<close> target, and the corner
  coordinates the rasteriser interpolates there: the \<^verbatim>\<open>aCorner\<close> that the vertex shader
  maps to that point.
\<close>

definition pixelCentre :: "nat \<Rightarrow> nat \<Rightarrow> nat \<Rightarrow> vec2" where
  "pixelCentre width height k =
     ((real (k mod width) + 1 / 2) / real width, (real (k div width) + 1 / 2) / real height)"

definition cornerAt :: "vec2 \<Rightarrow> vec2 \<Rightarrow> vec2 \<Rightarrow> vec2" where
  "cornerAt uMousePos uBrushSize c =
     ((fst c - fst uMousePos) / fst uBrushSize + 0.5,
      (snd c - snd uMousePos) / snd uBrushSize + 0.5)"

text \<open>
  The draw call of \<^verbatim>\<open>addStaticObstacle\<close> on the static texture. \<open>covers a\<close> says
  whether the rasteriser generates a fragment for a pixel centre with corner coordinates
  \<open>a\<close>; a pixel without a fragment, or whose fragment is discarded, keeps its texel.
  \<open>nanTexel\<close> is the texel that the implementation stores for a colour that is not a
  number, which the API leaves open.
\<close>

definition writePixel :: "vec2 \<Rightarrow> vec2 \<Rightarrow> fragment \<Rightarrow> vec2" where
  "writePixel nanTexel old fragColor =
     (case fragColor of Discarded \<Rightarrow> old | Color rg \<Rightarrow> storeRG8 rg | ColorNaN \<Rightarrow> nanTexel)"

definition brushPixel ::
  "(vec2 \<Rightarrow> bool) \<Rightarrow> vec2 \<Rightarrow> vec2 \<Rightarrow> vec2 \<Rightarrow> texture \<Rightarrow> nat \<Rightarrow> vec2" where
  "brushPixel covers nanTexel uMousePos uBrushSize target k =
     (let aCorner = cornerAt uMousePos uBrushSize
                      (pixelCentre (tex_width target) (tex_height target) k)
      in if covers aCorner
         then writePixel nanTexel (tex_data target ! k)
                (addStaticFrag (fst (addStaticVert uMousePos uBrushSize aCorner)))
         else tex_data target ! k)"

definition drawBrush ::
  "(vec2 \<Rightarrow> bool) \<Rightarrow> vec2 \<Rightarrow> vec2 \<Rightarrow> vec2 \<Rightarrow> texture \<Rightarrow> texture" where
  "drawBrush covers nanTexel uMousePos uBrushSize target =
     target\<lparr> tex_data := map (brushPixel covers nanTexel uMousePos uBrushSize target)
                               [0 ..< tex_width target * tex_height target] \<rparr>"

text \<open>\<^verbatim>\<open>addMobileFragStr\<close>, drawn on a quad that covers the whole target.\<close>

definition addMobileFrag :: "texture \<Rightarrow> vec2 \<Rightarrow> vec2 \<Rightarrow> vec2 \<Rightarrow> fragment" where
  "addMobileFrag uStaticTexture uMousePos uBrushSize sampleCoords =
     (let fromCenter = (2 * (fst sampleCoords - fst uMousePos) / fst uBrushSize,
                        2 * (snd sampleCoords - snd uMousePos) / snd uBrushSize)
      in if dot2 fromCenter fromCenter < 1
         then (case normalizeNaN fromCenter of
                 None \<Rightarrow> ColorNaN
               | Some normal \<Rightarrow> Color (0.5 * fst normal + 0.5, 0.5 * snd normal + 0.5))
         else Color (texture2D uStaticTexture sampleCoords))"

definition mobilePixel :: "vec2 \<Rightarrow> obstacleMap \<Rightarrow> vec2 \<Rightarrow> nat \<Rightarrow> vec2" where
  "mobilePixel nanTexel this mousePos k =
     writePixel nanTexel (tex_data (obstTexture this) ! k)
       (addMobileFrag (staticTexture this) mousePos (brushSize this)
          (pixelCentre (tex_width (obstTexture this)) (tex_height (obstTexture this)) k))"

definition setMobileObstacle :: "vec2 \<Rightarrow> obstacleMap \<Rightarrow> vec2 \<Rightarrow> obstacleMap" where
  "setMobileObstacle nanTexel this mousePos =
     this\<lparr> obstTexture := (obstTexture this)\<lparr> tex_data :=
       map (mobilePixel nanTexel this mousePos)
           [0 ..< tex_width (obstTexture this) * tex_height (obstTexture this)] \<rparr> \<rparr>"

definition addStaticObstacle ::
  "(vec2 \<Rightarrow> bool) \<Rightarrow> vec2 \<Rightarrow> obstacleMap \<Rightarrow> vec2 \<Rightarrow> obstacleMap" where
  "addStaticObstacle covers nanTexel this mousePos =
     (let this = this\<lparr> staticTexture :=
                   drawBrush covers nanTexel mousePos (brushSize this) (staticTexture this) \<rparr>
      in setMobileObstacle nanTexel this mousePos)"

text \<open>The rasteriser draws at least every pixel whose centre is strictly inside the quad.\<close>

definition coversInterior :: "(vec2 \<Rightarrow> bool) \<Rightarrow> bool" where
  "coversInterior covers \<longleftrightarrow>
     (\<forall>a. 0 < fst a \<and> fst a < 1 \<and> 0 < snd a \<and> snd a < 1 \<longrightarrow> covers a)"

definition inQuad :: "vec2 \<Rightarrow> bool" where
  "inQuad a \<longleftrightarrow> 0 \<le> fst a \<and> fst a \<le> 1 \<and> 0 \<le> snd a \<and> snd a \<le> 1"

section \<open>Sample inputs\<close>

text \<open>A source of random numbers that always returns one half, for concrete runs.\<close>

definition halfRandom :: "nat \<Rightarrow> real" where
  "halfRandom k = 1 / 2"

text \<open>A rasteriser that draws exactly the pixels whose centre is in the closed quad.\<close>

definition closedQuad :: "vec2 \<Rightarrow> bool" where
  "closedQuad a = inQuad a"

text \<open>A freshly reset 4 by 4 obstacle map with a brush of half the canvas.\<close>

definition sampleMap :: obstacleMap where
  "sampleMap = resetObstacles
     \<lparr> staticTexture = initTexture 4 4, obstTexture = initTexture 4 4,
       brushSize = (1 / 2, 1 / 2), FBO_width = 4, FBO_height = 4 \<rparr>"

section \<open>Verified properties\<close>

subsection \<open>Vectors and world constants\<close>

lemma length2_nonneg: "0 \<le> length2 v"
  by (simp add: length2_def dot2_def)

lemma length2_scale2: "length2 (scale2 k v) = \<bar>k\<bar> * length2 v"
proof -
  have "dot2 (scale2 k v) (scale2 k v) = k\<^sup>2 * dot2 v v"
    by (simp add: dot2_def scale2_def power2_eq_square algebra_simps)
  then show ?thesis
    by (simp add: length2_def real_sqrt_mult)
qed

lemma length2_eq_0_iff: "length2 v = 0 \<longleftrightarrow> v = (0, 0)"
  by (cases v) (simp add: length2_def dot2_def sum_squares_eq_zero_iff flip: power2_eq_square)

lemma toFixed1_tenths: "toFixed1 (real_of_int k / 10) = real_of_int k / 10"
  by (simp add: toFixed1_def)

lemma MAX_SPEED_worldOf: "MAX_SPEED (worldOf w h) = real (min w h) / 2"
proof -
  have "0.5 * real (min w h) = real_of_int (5 * int (min w h)) / 10" by simp
  then have "toFixed1 (0.5 * real (min w h)) = real_of_int (5 * int (min w h)) / 10"
    by (simp only: toFixed1_tenths)
  then show ?thesis
    by (simp add: worldOf_def setWorldSize_def)
qed

lemma POS_BANDWIDTH_worldOf: "POS_BANDWIDTH (worldOf w h) = 6 * real (max w h) / 5"
proof -
  have "1.2 * real (max w h) = real_of_int (12 * int (max w h)) / 10" by simp
  then have "toFixed1 (1.2 * real (max w h)) = real_of_int (12 * int (max w h)) / 10"
    by (simp only: toFixed1_tenths)
  then show ?thesis
    by (simp add: worldOf_def setWorldSize_def)
qed

subsection \<open>Velocity: bounce and clamp\<close>

lemma clampSpeed_le: "0 \<le> MAX_SPEED c \<Longrightarrow> length2 (clampSpeed c v) \<le> MAX_SPEED c"
proof (cases "length2 v = 0")
  case True
  assume "0 \<le> MAX_SPEED c"
  with True show ?thesis by (simp add: clampSpeed_def length2_scale2)
next
  case False
  assume m: "0 \<le> MAX_SPEED c"
  from False have pos: "0 < length2 v" using length2_nonneg [of v] by simp
  let ?k = "min 1 (MAX_SPEED c / length2 v)"
  have k0: "0 \<le> ?k" using m pos by simp
  have "?k * length2 v \<le> (MAX_SPEED c / length2 v) * length2 v"
    by (rule mult_right_mono) (use pos in simp_all)
  also have "\<dots> = MAX_SPEED c" using pos by simp
  finally show ?thesis using False k0 by (simp add: clampSpeed_def length2_scale2 abs_of_nonneg)
qed


lemma MAX_SPEED_worldOf_nonneg: "0 \<le> MAX_SPEED (worldOf w h)"
  by (simp add: MAX_SPEED_worldOf)

lemma dot2_scale2_left: "dot2 (scale2 k a) b = k * dot2 a b"
  by (simp add: dot2_def scale2_def algebra_simps)

lemma dot2_sub2_left: "dot2 (sub2 a b) c = dot2 a c - dot2 b c"
  by (simp add: dot2_def sub2_def algebra_simps)

lemma dot2_commute: "dot2 a b = dot2 b a"
  by (simp add: dot2_def mult.commute)

lemma length2_sq: "(length2 v)\<^sup>2 = dot2 v v"
  by (simp add: length2_def dot2_def)

lemma reflect2_dot:
  assumes "0 < dot2 n n"
  shows "dot2 (reflect2 v (normalize2 n)) n = - dot2 v n"
proof -
  have l: "(length2 n)\<^sup>2 = dot2 n n" by (rule length2_sq)
  have lpos: "length2 n \<noteq> 0" using assms l by auto
  have "dot2 (reflect2 v (normalize2 n)) n
      = dot2 v n - 2 * (dot2 n v * dot2 n n) / (length2 n)\<^sup>2"
    by (simp add: reflect2_def normalize2_def dot2_sub2_left dot2_scale2_left
          power2_eq_square)
  also have "\<dots> = dot2 v n - 2 * dot2 n v" using assms l by simp
  finally show ?thesis by (simp add: dot2_commute)
qed

lemma reflect2_length:
  assumes "0 < dot2 n n"
  shows "length2 (reflect2 v (normalize2 n)) = length2 v"
proof -
  have l: "(length2 n)\<^sup>2 = dot2 n n" by (rule length2_sq)
  define u where "u = normalize2 n"
  have uu: "dot2 u u = 1"
  proof -
    have "dot2 u u = dot2 n n / (length2 n)\<^sup>2"
      by (simp add: u_def normalize2_def dot2_def scale2_def power2_eq_square add_divide_distrib)
    then show ?thesis using assms l by simp
  qed
  have "dot2 (reflect2 v u) (reflect2 v u)
      = dot2 v v - 4 * (dot2 u v)\<^sup>2 + 4 * (dot2 u v)\<^sup>2 * dot2 u u"
    by (simp add: reflect2_def dot2_def sub2_def scale2_def power2_eq_square algebra_simps)
  then have "dot2 (reflect2 v u) (reflect2 v u) = dot2 v v" using uu by simp
  then show ?thesis by (simp add: length2_def u_def)
qed

text \<open>
  Claim C5. When the obstacle test passes for the normal \<open>n\<close> and the velocity points
  into the surface, the velocity after the bounce block (reflected about the normalised
  normal and rescaled) no longer points into the surface and its length is at most a
  tenth of the maximal speed. This is the velocity before the final clamp.
\<close>

theorem bounce_non_penetration:
  assumes n: "dot2 n n > 0.1" and into: "dot2 nextVel n < 0"
  shows "dot2 (bounce (worldOf w h) n nextVel) n \<ge> 0
       \<and> length2 (bounce (worldOf w h) n nextVel) \<le> 0.1 * MAX_SPEED (worldOf w h)"
proof -
  let ?c = "worldOf w h"
  let ?r = "reflect2 nextVel (normalize2 n)"
  let ?k = "min 1 (0.1 * MAX_SPEED ?c / length2 ?r)"
  from n have npos: "0 < dot2 n n" by simp
  have b: "bounce ?c n nextVel = scale2 ?k ?r"
    using n into by (simp add: bounce_def Let_def)
  have "nextVel \<noteq> (0, 0)" using into by (auto simp: dot2_def)
  then have "length2 nextVel \<noteq> 0" by (simp add: length2_eq_0_iff)
  then have rpos: "0 < length2 ?r"
    using length2_nonneg [of nextVel] by (simp add: reflect2_length [OF npos])
  have k0: "0 \<le> ?k" using MAX_SPEED_worldOf_nonneg [of w h] rpos by simp
  have d: "dot2 ?r n = - dot2 nextVel n" by (rule reflect2_dot [OF npos])
  have "0 \<le> dot2 ?r n" using into d by simp
  with k0 have "0 \<le> ?k * dot2 ?r n" by (rule mult_nonneg_nonneg)
  then have first: "dot2 (bounce ?c n nextVel) n \<ge> 0" by (simp add: b dot2_scale2_left)
  have "?k * length2 ?r \<le> (0.1 * MAX_SPEED ?c / length2 ?r) * length2 ?r"
    by (rule mult_right_mono) (use rpos in simp_all)
  also have "\<dots> = 0.1 * MAX_SPEED ?c" using rpos by simp
  finally have "length2 (bounce ?c n nextVel) \<le> 0.1 * MAX_SPEED ?c"
    using k0 by (simp add: b length2_scale2 abs_of_nonneg)
  with first show ?thesis by simp
qed

text \<open>
  Claim C2. For every particle, every input state, every obstacle texture, every
  acceleration and every time step, the velocity written by the update shader has length
  at most \<open>MAX_SPEED\<close>: the clamp is the last operation on the velocity, after
  acceleration, reinjection and bounce.
\<close>

theorem speed_clamp:
  "length2 (snd (updateVert (worldOf w h) uObstaclesBuffer uDt uAcceleration aPos aVel))
     \<le> MAX_SPEED (worldOf w h)"
  by (simp add: updateVert_def nextVelocity_def Let_def clampSpeed_le MAX_SPEED_worldOf_nonneg)

text \<open>The statement of C5 at a particle falling straight onto an upward normal.\<close>

theorem bounce_non_penetration_witness:
  "dot2 (0, 1) (0, 1) > 0.1 \<and> dot2 (0, - 1) (0, 1) < 0
   \<and> dot2 (bounce (worldOf 100 100) (0, 1) (0, - 1)) (0, 1) \<ge> 0
   \<and> length2 (bounce (worldOf 100 100) (0, 1) (0, - 1)) \<le> 0.1 * MAX_SPEED (worldOf 100 100)"
proof -
  have a: "dot2 (0, 1) (0, 1) > 0.1" by (simp add: dot2_def)
  have b: "dot2 (0, - 1) (0, 1) < 0" by (simp add: dot2_def)
  show ?thesis using a b bounce_non_penetration [OF a b, of 100 100] by simp
qed

subsection \<open>The fresh obstacle texture\<close>

lemma texelDataLoop_eq: "texelDataLoop i n acc = acc @ replicate (2 * (n - i)) 127"
proof (induction i n acc rule: texelDataLoop.induct)
  case (1 i n texelData)
  show ?case
  proof (cases "i < n")
    case True
    then have "2 * (n - i) = Suc (Suc (2 * (n - (i + 1))))" by simp
    then have "replicate (2 * (n - i)) (127::nat) = [127, 127] @ replicate (2 * (n - (i + 1))) 127"
      by (simp only: replicate_Suc) simp
    with True "1.IH" show ?thesis by (subst texelDataLoop.simps) simp
  next
    case False
    then show ?thesis by (subst texelDataLoop.simps) simp
  qed
qed

lemma initTexture_bytes:
  "texelDataLoop 0 (w * h) [] = replicate (2 * (w * h)) 127"
  by (simp add: texelDataLoop_eq)

lemma initTexture_size:
  "tex_width (initTexture w h) = w" "tex_height (initTexture w h) = h"
  "length (tex_data (initTexture w h)) = w * h"
  by (simp_all add: initTexture_def texImage2D_RG8_def)

lemma initTexture_texel:
  assumes "k < w * h"
  shows "tex_data (initTexture w h) ! k = (127 / 255, 127 / 255)"
proof -
  from assms have "2 * k < 2 * (w * h)" "2 * k + 1 < 2 * (w * h)" by simp_all
  then show ?thesis
    using assms by (simp add: initTexture_def texImage2D_RG8_def initTexture_bytes)
qed

lemma clampIndex_less: "0 < n \<Longrightarrow> clampIndex i n < n"
  by (auto simp: clampIndex_def)

lemma row_major_less:
  assumes "i < w" "j < h"
  shows "j * w + i < w * (h::nat)"
proof -
  have "j * w + i < j * w + w" using assms by simp
  also have "\<dots> = (j + 1) * w" by simp
  also have "\<dots> \<le> h * w" using assms by (intro mult_le_mono1) simp
  finally show ?thesis by (simp add: mult.commute)
qed

lemma texelFetch_initTexture:
  "i < w \<Longrightarrow> j < h \<Longrightarrow> texelFetch (initTexture w h) i j = (127 / 255, 127 / 255)"
  by (simp add: texelFetch_def initTexture_size initTexture_texel row_major_less)

lemma bilinear_const:
  "add2 (add2 (scale2 ((1 - a) * (1 - b)) t) (scale2 (a * (1 - b)) t))
        (add2 (scale2 ((1 - a) * b) t) (scale2 (a * b) t)) = t"
  by (cases t) (simp add: add2_def scale2_def algebra_simps)

lemma texture2D_initTexture:
  assumes "0 < w" "0 < h"
  shows "texture2D (initTexture w h) coord = (127 / 255, 127 / 255)"
  using assms
  by (simp add: texture2D_def Let_def initTexture_size texelFetch_initTexture
        clampIndex_less bilinear_const)

lemma decodeObstacle_fresh: "decodeObstacle (127 / 255, 127 / 255) = (- 1 / 255, - 1 / 255)"
  by (simp add: decodeObstacle_def)

subsection \<open>One step on a fresh obstacle texture\<close>

lemma tex_data_initTexture:
  "tex_data (initTexture w h) = replicate (w * h) (127 / 255, 127 / 255)"
  by (rule nth_equalityI) (simp_all add: initTexture_size initTexture_texel)

lemma fresh_normal_small: "\<not> dot2 (- 1 / 255, - 1 / 255) (- 1 / 255, - 1 / 255) > 0.1"
  by (simp add: dot2_def)

lemma bounce_fresh: "bounce c (decodeObstacle (127 / 255, 127 / 255)) v = v"
  by (simp add: bounce_def decodeObstacle_def dot2_def)

lemma WORLD_SIZE_worldOf:
  "WORLD_SIZE_x (worldOf w h) = real w" "WORLD_SIZE_y (worldOf w h) = real h"
  by (simp_all add: worldOf_def setWorldSize_def)

lemma nudgedPos_fresh:
  assumes "0 < w" "0 < h"
  shows "nudgedPos c (initTexture w h) uDt pos nv
       = add2 (add2 pos (scale2 uDt nv)) (scale2 uDt (- 1 / 255, - 1 / 255))"
  using assms by (simp add: nudgedPos_def Let_def texture2D_initTexture decodeObstacle_fresh)

lemma nextVelocity_fresh:
  assumes "0 < w" "0 < h"
  shows "nextVelocity c (initTexture w h) uDt acc pos vel
       = clampSpeed c (reinjectVel c pos vel (add2 vel (scale2 uDt acc)))"
  using assms
  by (simp add: nextVelocity_def Let_def texture2D_initTexture bounce_fresh)

lemma updateVert_fst:
  "fst (updateVert c t uDt acc pos vel)
     = wrapPos c (reinjectPos c pos vel (nudgedPos c t uDt pos (nextVelocity c t uDt acc pos vel)))"
  by (simp add: updateVert_def Let_def)

lemma updateVert_snd:
  "snd (updateVert c t uDt acc pos vel) = nextVelocity c t uDt acc pos vel"
  by (simp add: updateVert_def Let_def)

text \<open>
  Claim C10. A fresh obstacle texture of positive size holds the byte pair 127, 127 in
  every texel; every sample of it decodes to \<open>(-1/255, -1/255)\<close>, whose squared length
  \<open>2/65025\<close> is below the obstacle threshold 0.1 but which is not the zero vector; and
  the update shader adds \<open>dt * (-1/255, -1/255)\<close> to the integrated position of every
  particle, before the reinjection override and the wrap. \<^verbatim>\<open>ObstacleMap.reset\<close>
  installs such a texture as both layers.
\<close>

theorem fresh_texture_nudge:
  assumes "0 < w" "0 < h"
  shows "texelDataLoop 0 (w * h) [] = replicate (2 * (w * h)) 127
       \<and> tex_data (initTexture w h) = replicate (w * h) (127 / 255, 127 / 255)
       \<and> decodeObstacle (texture2D (initTexture w h) coord) = (- 1 / 255, - 1 / 255)
       \<and> dot2 (- 1 / 255, - 1 / 255) (- 1 / 255, - 1 / 255) = 2 / 65025
       \<and> \<not> dot2 (- 1 / 255, - 1 / 255) (- 1 / 255, - 1 / 255) > 0.1
       \<and> (- 1 / 255, - 1 / 255) \<noteq> ((0, 0) :: vec2)
       \<and> fst (updateVert c (initTexture w h) uDt acc pos vel)
           = wrapPos c (reinjectPos c pos vel
               (add2 (add2 pos (scale2 uDt (snd (updateVert c (initTexture w h) uDt acc pos vel))))
                     (scale2 uDt (- 1 / 255, - 1 / 255))))
       \<and> staticTexture (resetObstacles this) = initTexture (FBO_width this) (FBO_height this)
       \<and> obstTexture (resetObstacles this) = initTexture (FBO_width this) (FBO_height this)"
proof -
  have 1: "texelDataLoop 0 (w * h) [] = replicate (2 * (w * h)) 127"
    by (rule initTexture_bytes)
  have 2: "tex_data (initTexture w h) = replicate (w * h) (127 / 255, 127 / 255)"
    by (rule tex_data_initTexture)
  have 3: "decodeObstacle (texture2D (initTexture w h) coord) = (- 1 / 255, - 1 / 255)"
    using assms by (simp add: texture2D_initTexture decodeObstacle_fresh)
  have 4: "dot2 (- 1 / 255, - 1 / 255) (- 1 / 255, - 1 / 255) = 2 / 65025"
    by (simp add: dot2_def)
  have 5: "(- 1 / 255, - 1 / 255) \<noteq> ((0, 0) :: vec2)" by simp
  have 6: "fst (updateVert c (initTexture w h) uDt acc pos vel)
           = wrapPos c (reinjectPos c pos vel
               (add2 (add2 pos (scale2 uDt (snd (updateVert c (initTexture w h) uDt acc pos vel))))
                     (scale2 uDt (- 1 / 255, - 1 / 255))))"
    by (simp only: updateVert_fst updateVert_snd nudgedPos_fresh [OF assms])
  have 7: "staticTexture (resetObstacles this) = initTexture (FBO_width this) (FBO_height this)"
          "obstTexture (resetObstacles this) = initTexture (FBO_width this) (FBO_height this)"
    by (simp_all add: resetObstacles_def)
  from 1 2 3 4 5 6 7 fresh_normal_small show ?thesis by blast
qed

lemma sqrt_25: "sqrt 25 = 5"
  using real_sqrt_abs [of 5] by simp


text \<open>The statement of C10 at a 100 by 100 texture and one particle.\<close>

theorem fresh_texture_nudge_witness:
  "(0::nat) < 100 \<and> (0::nat) < 100
   \<and> decodeObstacle (texture2D (initTexture 100 100) (1 / 2, 1 / 2)) = (- 1 / 255, - 1 / 255)
   \<and> fst (updateVert (worldOf 100 100) (initTexture 100 100) (2 / 125) (0, 0) (10, 20) (3, 4))
       = wrapPos (worldOf 100 100) (reinjectPos (worldOf 100 100) (10, 20) (3, 4)
           (add2 (add2 (10, 20) (scale2 (2 / 125)
              (snd (updateVert (worldOf 100 100) (initTexture 100 100) (2 / 125) (0, 0) (10, 20) (3, 4)))))
              (scale2 (2 / 125) (- 1 / 255, - 1 / 255))))"
proof -
  have a: "(0::nat) < 100" by simp
  show ?thesis
    using a fresh_texture_nudge [OF a a, of "(1 / 2, 1 / 2)" "worldOf 100 100" "2 / 125"
        "(0, 0)" "(10, 20)" "(3, 4)"]
    by blast
qed




subsection \<open>Reinjection and wrap\<close>

lemma random_glsl_range: "0 \<le> random_glsl co" "random_glsl co < 1"
  by (simp_all add: random_glsl_def frac_lt_1)

lemma bandwidth_ge_world:
  "WORLD_SIZE_x (worldOf w h) \<le> POS_BANDWIDTH (worldOf w h)"
  "WORLD_SIZE_y (worldOf w h) \<le> POS_BANDWIDTH (worldOf w h)"
  by (simp_all add: WORLD_SIZE_worldOf POS_BANDWIDTH_worldOf max_def)

lemma wrapPos_snd: "snd (wrapPos c p) = snd p"
  by (simp add: wrapPos_def)

lemma wrapPos_inside:
  "- 0.5 * POS_BANDWIDTH c \<le> fst p \<Longrightarrow> fst p \<le> 0.5 * POS_BANDWIDTH c \<Longrightarrow> wrapPos c p = p"
  by (simp add: wrapPos_def)

text \<open>
  Claim C3, amended. A particle below the world is written with \<open>|x| \<le> 0.5 * W\<close>, and
  with the \<open>y\<close> of its integrated and nudged position raised by
  \<open>H + 0.5 * random(pos) * (bandwidth - H)\<close>, an amount between \<open>H\<close> and
  \<open>0.5 * (H + bandwidth)\<close>. Nothing makes the result exceed \<open>0.5 * H\<close>.
\<close>

theorem reinjection_position:
  assumes "snd pos < - 0.5 * WORLD_SIZE_y (worldOf w h)"
  shows "\<bar>fst (fst (updateVert (worldOf w h) t uDt acc pos vel))\<bar> \<le> 0.5 * WORLD_SIZE_x (worldOf w h)
       \<and> snd (fst (updateVert (worldOf w h) t uDt acc pos vel))
           = snd (nudgedPos (worldOf w h) t uDt pos (snd (updateVert (worldOf w h) t uDt acc pos vel)))
             + (WORLD_SIZE_y (worldOf w h)
                + 0.5 * random_glsl pos * (POS_BANDWIDTH (worldOf w h) - WORLD_SIZE_y (worldOf w h)))
       \<and> snd (nudgedPos (worldOf w h) t uDt pos (snd (updateVert (worldOf w h) t uDt acc pos vel)))
             + WORLD_SIZE_y (worldOf w h)
           \<le> snd (fst (updateVert (worldOf w h) t uDt acc pos vel))
       \<and> snd (fst (updateVert (worldOf w h) t uDt acc pos vel))
           \<le> snd (nudgedPos (worldOf w h) t uDt pos (snd (updateVert (worldOf w h) t uDt acc pos vel)))
             + 0.5 * (WORLD_SIZE_y (worldOf w h) + POS_BANDWIDTH (worldOf w h))"
proof -
  let ?c = "worldOf w h"
  let ?q = "nudgedPos ?c t uDt pos (nextVelocity ?c t uDt acc pos vel)"
  let ?r = "reinjectPos ?c pos vel ?q"
  let ?d = "POS_BANDWIDTH ?c - WORLD_SIZE_y ?c"
  from assms have below: "belowWorld ?c pos" by (simp add: belowWorld_def)
  have W0: "0 \<le> WORLD_SIZE_x ?c" by (simp add: WORLD_SIZE_worldOf)
  have d0: "0 \<le> ?d" using bandwidth_ge_world(2) [of w h] by simp
  have rx: "fst ?r = (random_glsl (add2 pos vel) - 0.5) * WORLD_SIZE_x ?c"
    using below by (simp add: reinjectPos_def)
  have ry: "snd ?r = snd ?q + (WORLD_SIZE_y ?c + 0.5 * random_glsl pos * ?d)"
    using below by (simp add: reinjectPos_def)
  have "\<bar>random_glsl (add2 pos vel) - 0.5\<bar> \<le> 0.5"
    using random_glsl_range [of "add2 pos vel"] by linarith
  then have "\<bar>random_glsl (add2 pos vel) - 0.5\<bar> * WORLD_SIZE_x ?c \<le> 0.5 * WORLD_SIZE_x ?c"
    using W0 by (rule mult_right_mono)
  then have xb: "\<bar>fst ?r\<bar> \<le> 0.5 * WORLD_SIZE_x ?c"
    using W0 by (simp add: rx abs_mult)
  then have "- 0.5 * POS_BANDWIDTH ?c \<le> fst ?r" "fst ?r \<le> 0.5 * POS_BANDWIDTH ?c"
    using bandwidth_ge_world(1) [of w h] by simp_all
  then have nowrap: "wrapPos ?c ?r = ?r" by (rule wrapPos_inside)
  have lo: "0 \<le> 0.5 * random_glsl pos * ?d"
    using random_glsl_range(1) [of pos] d0 by simp
  have "random_glsl pos * ?d \<le> 1 * ?d"
    using random_glsl_range(2) [of pos] d0 by (intro mult_right_mono) simp_all
  then have hi: "0.5 * random_glsl pos * ?d \<le> 0.5 * ?d" by simp
  show ?thesis
    using xb lo hi by (simp add: updateVert_fst updateVert_snd nowrap ry)
qed

lemma random_glsl_zero: "dot2 co (12.9898, 78.233) = 0 \<Longrightarrow> random_glsl co = 0"
  by (simp add: random_glsl_def)

lemma reinjected_step_fresh:
  "updateVert (worldOf 1000 100) (initTexture 1000 100) (2 / 125) (0, - 10000)
       (312.932, - 51.9592) (0, 0)
     = ((- 500, - 51.9592 - 2 / 125 / 255 + 100), (- 5, 0))"
proof -
  let ?c = "worldOf 1000 100" and ?pos = "(312.932, - 51.9592) :: vec2"
  have below: "belowWorld ?c ?pos" by (simp add: belowWorld_def WORLD_SIZE_worldOf)
  have r1: "random_glsl (scale2 100 ?pos) = 0"
    by (rule random_glsl_zero) (simp add: dot2_def scale2_def)
  have r2: "random_glsl ?pos = 0"
    by (rule random_glsl_zero) (simp add: dot2_def)
  have r3: "random_glsl (add2 ?pos (0, 0)) = 0"
    by (rule random_glsl_zero) (simp add: dot2_def add2_def)
  have rv: "reinjectVel ?c ?pos (0, 0) (add2 (0, 0) (scale2 (2 / 125) (0, - 10000))) = (- 5, 0)"
    by (simp only: reinjectVel_def if_P [OF below] r1 r3) (simp add: MAX_SPEED_worldOf)
  have v: "nextVelocity ?c (initTexture 1000 100) (2 / 125) (0, - 10000) ?pos (0, 0) = (- 5, 0)"
    by (simp only: nextVelocity_fresh [of 1000 100, simplified] rv)
       (simp add: clampSpeed_def length2_def dot2_def scale2_def sqrt_25 MAX_SPEED_worldOf)
  have q: "nudgedPos ?c (initTexture 1000 100) (2 / 125) ?pos (- 5, 0)
         = (312.932 - 2 / 125 * 5 - 2 / 125 / 255, - 51.9592 - 2 / 125 / 255)"
    by (simp only: nudgedPos_fresh [of 1000 100, simplified]) (simp add: add2_def scale2_def)
  have r: "reinjectPos ?c ?pos (0, 0)
             (312.932 - 2 / 125 * 5 - 2 / 125 / 255, - 51.9592 - 2 / 125 / 255)
         = (- 500, - 51.9592 - 2 / 125 / 255 + 100)"
    by (simp only: reinjectPos_def if_P [OF below] r2 r3) (simp add: WORLD_SIZE_worldOf)
  have w: "wrapPos ?c (- 500, - 51.9592 - 2 / 125 / 255 + 100)
         = (- 500, - 51.9592 - 2 / 125 / 255 + 100)"
    by (rule wrapPos_inside) (simp_all add: POS_BANDWIDTH_worldOf)
  show ?thesis
    by (rule prod_eqI) (simp_all only: updateVert_fst updateVert_snd v q r w fst_conv snd_conv)
qed

text \<open>
  Claim C3 fails as stated. On a 1000 by 100 canvas with a fresh obstacle texture, the
  particle at \<open>(312.932, -51.9592)\<close>, at rest and just below the lower edge \<open>-50\<close>, is
  reinjected at \<open>y\<close> about \<open>48.04\<close>, below the top edge \<open>50\<close>: its position hashes to
  the random value 0, so the shift is exactly one world height.
\<close>

theorem reinjection_above_top_counterexample:
  "snd (312.932 :: real, - 51.9592 :: real) < - 0.5 * WORLD_SIZE_y (worldOf 1000 100)
   \<and> \<not> snd (fst (updateVert (worldOf 1000 100) (initTexture 1000 100) (2 / 125) (0, - 10000)
                  (312.932, - 51.9592) (0, 0)))
         > 0.5 * WORLD_SIZE_y (worldOf 1000 100)"
  by (simp only: reinjected_step_fresh) (simp add: WORLD_SIZE_worldOf)

text \<open>The amended C3 at the particle of the counterexample.\<close>

theorem reinjection_position_witness:
  "snd (312.932 :: real, - 51.9592 :: real) < - 0.5 * WORLD_SIZE_y (worldOf 1000 100)
   \<and> \<bar>fst (fst (updateVert (worldOf 1000 100) (initTexture 1000 100) (2 / 125) (0, - 10000)
                  (312.932, - 51.9592) (0, 0)))\<bar> \<le> 0.5 * WORLD_SIZE_x (worldOf 1000 100)"
proof -
  have a: "snd (312.932 :: real, - 51.9592 :: real) < - 0.5 * WORLD_SIZE_y (worldOf 1000 100)"
    by (simp add: WORLD_SIZE_worldOf)
  from reinjection_position [OF a, of "initTexture 1000 100" "2 / 125" "(0, - 10000)" "(0, 0)"] a
  show ?thesis by blast
qed

lemma wrapPos_closure:
  assumes "0 \<le> POS_BANDWIDTH c" and "\<bar>fst p\<bar> \<le> 1.5 * POS_BANDWIDTH c"
  shows "- 0.5 * POS_BANDWIDTH c \<le> fst (wrapPos c p) \<and> fst (wrapPos c p) \<le> 0.5 * POS_BANDWIDTH c"
  using assms by (auto simp: wrapPos_def)

lemma POS_BANDWIDTH_worldOf_nonneg: "0 \<le> POS_BANDWIDTH (worldOf w h)"
  by (simp add: POS_BANDWIDTH_worldOf)

subsection \<open>Reset of the particle buffers\<close>

lemma resetLoop_eq:
  "resetLoop rnd this i pos vel =
     (pos @ concat (map (\<lambda>k. [(rnd (4 * k) - 0.5) * real (worldSize_width this),
                                (rnd (4 * k + 1) - 0.5) * real (worldSize_height this)])
                        [i ..< nbParts this]),
      vel @ concat (map (\<lambda>k. [2 * (rnd (4 * k + 2) - 0.5) * maxSpeed this,
                                2 * (rnd (4 * k + 3) - 0.5) * maxSpeed this])
                        [i ..< nbParts this]))"
proof (induction rnd this i pos vel rule: resetLoop.induct)
  case (1 rnd this i pos vel)
  show ?case
  proof (cases "i < nbParts this")
    case True
    then have u: "[i ..< nbParts this] = i # [i + 1 ..< nbParts this]"
      by (simp add: upt_conv_Cons)
    from True "1.IH" show ?thesis
      by (subst resetLoop.simps) (simp add: u)
  next
    case False
    then show ?thesis by (subst resetLoop.simps) simp
  qed
qed

lemma attribs2_concat: "attribs2 (concat (map (\<lambda>k. [f k, g k]) ks)) = map (\<lambda>k. (f k, g k)) ks"
  by (induction ks) simp_all

lemma reset_fields:
  "nbParts (reset this rnd nb) = nb"
  "currIndex (reset this rnd nb) = currIndex this"
  "worldSize_width (reset this rnd nb) = worldSize_width this"
  "worldSize_height (reset this rnd nb) = worldSize_height this"
  "maxSpeed (reset this rnd nb) = maxSpeed this"
  by (simp_all add: reset_def Let_def split_def)

lemma reset_posVBO:
  "posVBO (reset this rnd nb) =
     (let pos = concat (map (\<lambda>k. [(rnd (4 * k) - 0.5) * real (worldSize_width this),
                                    (rnd (4 * k + 1) - 0.5) * real (worldSize_height this)])
                            [0 ..< nb])
      in [pos, pos])"
  by (simp add: reset_def Let_def resetLoop_eq)

lemma reset_velVBO:
  "velVBO (reset this rnd nb) =
     (let vel = concat (map (\<lambda>k. [2 * (rnd (4 * k + 2) - 0.5) * maxSpeed this,
                                    2 * (rnd (4 * k + 3) - 0.5) * maxSpeed this])
                            [0 ..< nb])
      in [vel, vel])"
  by (simp add: reset_def Let_def resetLoop_eq)

lemma centred_bound:
  assumes "0 \<le> r" "r < 1" "0 \<le> (s::real)"
  shows "\<bar>(r - 0.5) * s\<bar> \<le> 0.5 * s"
proof -
  have "\<bar>r - 0.5\<bar> \<le> 0.5" using assms by linarith
  then have "\<bar>r - 0.5\<bar> * s \<le> 0.5 * s" using assms(3) by (rule mult_right_mono)
  then show ?thesis using assms(3) by (simp add: abs_mult)
qed

lemma centred_bound2:
  assumes "0 \<le> r" "r < 1" "0 \<le> (s::real)"
  shows "\<bar>2 * (r - 0.5) * s\<bar> \<le> s"
proof -
  have "2 * (r - 0.5) * s = 2 * ((r - 0.5) * s)" by simp
  then have "\<bar>2 * (r - 0.5) * s\<bar> = 2 * \<bar>(r - 0.5) * s\<bar>" by (simp only: abs_mult abs_numeral)
  with centred_bound [OF assms] show ?thesis by linarith
qed

text \<open>
  Claim C6, amended. After \<^verbatim>\<open>reset(count)\<close> both generations hold the same \<open>count\<close>
  newly drawn particles, every position within the visible domain and every velocity
  component within plus or minus the maximal speed; the current-generation index is left
  as it was.
\<close>

theorem reset_randomizes:
  assumes rnd: "\<forall>k. 0 \<le> rnd k \<and> rnd k < 1" and ms: "0 \<le> maxSpeed this"
  shows "nbParts (reset this rnd nb) = nb
       \<and> posVBO (reset this rnd nb) ! 0 = posVBO (reset this rnd nb) ! 1
       \<and> velVBO (reset this rnd nb) ! 0 = velVBO (reset this rnd nb) ! 1
       \<and> attribs2 (posVBO (reset this rnd nb) ! 0)
           = map (\<lambda>k. ((rnd (4 * k) - 0.5) * real (worldSize_width this),
                        (rnd (4 * k + 1) - 0.5) * real (worldSize_height this))) [0 ..< nb]
       \<and> attribs2 (velVBO (reset this rnd nb) ! 0)
           = map (\<lambda>k. (2 * (rnd (4 * k + 2) - 0.5) * maxSpeed this,
                        2 * (rnd (4 * k + 3) - 0.5) * maxSpeed this)) [0 ..< nb]
       \<and> (\<forall>p \<in> set (attribs2 (posVBO (reset this rnd nb) ! 0)).
              \<bar>fst p\<bar> \<le> 0.5 * real (worldSize_width this)
            \<and> \<bar>snd p\<bar> \<le> 0.5 * real (worldSize_height this))
       \<and> (\<forall>v \<in> set (attribs2 (velVBO (reset this rnd nb) ! 0)).
              \<bar>fst v\<bar> \<le> maxSpeed this \<and> \<bar>snd v\<bar> \<le> maxSpeed this)
       \<and> currIndex (reset this rnd nb) = currIndex this"
proof -
  have r: "0 \<le> rnd k" "rnd k < 1" for k using rnd by simp_all
  have p: "attribs2 (posVBO (reset this rnd nb) ! 0)
           = map (\<lambda>k. ((rnd (4 * k) - 0.5) * real (worldSize_width this),
                        (rnd (4 * k + 1) - 0.5) * real (worldSize_height this))) [0 ..< nb]"
    by (simp add: reset_posVBO Let_def attribs2_concat)
  have v: "attribs2 (velVBO (reset this rnd nb) ! 0)
           = map (\<lambda>k. (2 * (rnd (4 * k + 2) - 0.5) * maxSpeed this,
                        2 * (rnd (4 * k + 3) - 0.5) * maxSpeed this)) [0 ..< nb]"
    by (simp add: reset_velVBO Let_def attribs2_concat)
  have pb: "\<forall>p \<in> set (attribs2 (posVBO (reset this rnd nb) ! 0)).
              \<bar>fst p\<bar> \<le> 0.5 * real (worldSize_width this)
            \<and> \<bar>snd p\<bar> \<le> 0.5 * real (worldSize_height this)"
    unfolding p using centred_bound [OF r] by auto
  have vb: "\<forall>v \<in> set (attribs2 (velVBO (reset this rnd nb) ! 0)).
              \<bar>fst v\<bar> \<le> maxSpeed this \<and> \<bar>snd v\<bar> \<le> maxSpeed this"
    unfolding v using centred_bound2 [OF r ms] by auto
  have g: "posVBO (reset this rnd nb) ! 0 = posVBO (reset this rnd nb) ! 1"
          "velVBO (reset this rnd nb) ! 0 = velVBO (reset this rnd nb) ! 1"
    by (simp_all add: reset_posVBO reset_velVBO Let_def)
  from p v pb vb g show ?thesis by (simp only: reset_fields simp_thms)
qed

lemma newParticles_fields:
  "currIndex (newParticles w h rnd nb) = 0"
  "maxSpeed (newParticles w h rnd nb) = 0.5 * real (min w h)"
  "speed (newParticles w h rnd nb) = 1"
  by (simp_all add: newParticles_def Let_def reset_def split_def)

lemma update_currIndex: "currIndex (update this t dt) = (currIndex this + 1) mod 2"
  by (simp add: update_def Let_def switchBuffers_def nextIndex_def)

text \<open>
  Claim C6 fails as stated. After the constructor the current-generation index is 0; one
  \<^verbatim>\<open>update\<close> makes it 1; a \<^verbatim>\<open>reset\<close> then leaves it at 1, not at its initial value.
\<close>

theorem reset_generation_pointer_counterexample:
  "currIndex (newParticles 100 100 halfRandom 1) = 0
   \<and> currIndex (reset (update (newParticles 100 100 halfRandom 1) (initTexture 100 100) (2 / 125))
                  halfRandom 1) = 1"
  by (simp add: reset_fields update_currIndex newParticles_fields)

text \<open>The amended C6 at a reset to two particles after the constructor.\<close>

theorem reset_randomizes_witness:
  "(\<forall>k. 0 \<le> halfRandom k \<and> halfRandom k < 1)
   \<and> 0 \<le> maxSpeed (newParticles 100 100 halfRandom 1)
   \<and> nbParts (reset (newParticles 100 100 halfRandom 1) halfRandom 2) = 2
   \<and> currIndex (reset (newParticles 100 100 halfRandom 1) halfRandom 2)
       = currIndex (newParticles 100 100 halfRandom 1)"
proof -
  have a: "\<forall>k. 0 \<le> halfRandom k \<and> halfRandom k < 1" by (simp add: halfRandom_def)
  have b: "0 \<le> maxSpeed (newParticles 100 100 halfRandom 1)" by (simp add: newParticles_fields)
  from reset_randomizes [OF a b, of 2] a b show ?thesis by blast
qed

subsection \<open>The blur kernel\<close>

lemma kernelLoop1_eq:
  "length ks = i \<Longrightarrow>
   kernelLoop1 K i ks t
     = (ks @ map (kernelSample K) [i ..< K], t + sum_list (map (kernelSample K) [i ..< K]))"
proof (induction K i ks t rule: kernelLoop1.induct)
  case (1 K i ks t)
  show ?case
  proof (cases "i < K")
    case True
    then have u: "[i ..< K] = i # [i + 1 ..< K]" by (simp add: upt_conv_Cons)
    have n: "(ks @ [kernelFunction (2 * real i / real K - 1)]) ! i
             = kernelFunction (2 * real i / real K - 1)"
      using "1.prems" by (simp add: nth_append)
    have "kernelLoop1 K (i + 1) (ks @ [kernelFunction (2 * real i / real K - 1)])
            (t + (ks @ [kernelFunction (2 * real i / real K - 1)]) ! i)
        = ((ks @ [kernelFunction (2 * real i / real K - 1)]) @ map (kernelSample K) [i + 1 ..< K],
           (t + (ks @ [kernelFunction (2 * real i / real K - 1)]) ! i)
             + sum_list (map (kernelSample K) [i + 1 ..< K]))"
      by (rule "1.IH" [OF True refl refl refl]) (use "1.prems" in simp)
    with True show ?thesis
      by (subst kernelLoop1.simps) (simp add: Let_def u n kernelSample_def)
  next
    case False
    then show ?thesis by (subst kernelLoop1.simps) simp
  qed
qed

lemma kernelLoop2_eq:
  "length ks = K \<Longrightarrow> i \<le> K \<Longrightarrow>
   kernelLoop2 K i ks t = take i ks @ map (\<lambda>w. w / t) (drop i ks)"
proof (induction K i ks t rule: kernelLoop2.induct)
  case (1 K i ks t)
  show ?case
  proof (cases "i < K")
    case True
    with "1.prems" have il: "i < length ks" by simp
    have "kernelLoop2 K (i + 1) (ks[i := ks ! i / t]) t
        = take (i + 1) (ks[i := ks ! i / t]) @ map (\<lambda>w. w / t) (drop (i + 1) (ks[i := ks ! i / t]))"
      by (rule "1.IH" [OF True]) (use "1.prems" True in simp_all)
    also have "take (i + 1) (ks[i := ks ! i / t]) = take i ks @ [ks ! i / t]"
      using il by (simp add: take_Suc_conv_app_nth)
    also have "drop (i + 1) (ks[i := ks ! i / t]) = drop (i + 1) ks" by simp
    finally have "kernelLoop2 K (i + 1) (ks[i := ks ! i / t]) t
        = take i ks @ map (\<lambda>w. w / t) (ks ! i # drop (i + 1) ks)" by simp
    also have "ks ! i # drop (i + 1) ks = drop i ks"
      using il by (simp add: Cons_nth_drop_Suc)
    finally show ?thesis using True by (subst kernelLoop2.simps) simp
  next
    case False
    with "1.prems" have "i = length ks" by simp
    with False "1.prems" show ?thesis by (subst kernelLoop2.simps) simp
  qed
qed

lemma setKernelSize_eq:
  "setKernelSize K
     = map (\<lambda>w. w / sum_list (map (kernelSample K) [0 ..< K])) (map (kernelSample K) [0 ..< K])"
  by (simp add: setKernelSize_def kernelLoop1_eq kernelLoop2_eq)

lemma kernelSample_pos: "0 < kernelSample K i"
  by (simp add: kernelSample_def kernelFunction_def)

lemma sum_list_positive:
  "ws \<noteq> [] \<Longrightarrow> (\<And>w. w \<in> set ws \<Longrightarrow> 0 < w) \<Longrightarrow> 0 < sum_list (ws :: real list)"
proof (induction ws)
  case Nil
  then show ?case by simp
next
  case (Cons w ws)
  show ?case
  proof (cases "ws = []")
    case True
    with Cons.prems show ?thesis by simp
  next
    case False
    then have "0 < sum_list ws" using Cons by simp
    moreover have "0 < w" using Cons.prems by simp
    ultimately show ?thesis by simp
  qed
qed

lemma kernel_total_pos:
  assumes "1 \<le> K"
  shows "0 < sum_list (map (kernelSample K) [0 ..< K])"
proof -
  from assms have "map (kernelSample K) [0 ..< K] \<noteq> []" by simp
  then show ?thesis
    by (rule sum_list_positive) (auto simp: kernelSample_pos)
qed

lemma sum_list_divide: "sum_list (map (\<lambda>w. w / t) ws) = sum_list ws / (t::real)"
  by (induction ws) (simp_all add: add_divide_distrib)


text \<open>
  Claim C7. For every kernel size \<open>K \<ge> 1\<close>, \<^verbatim>\<open>setKernelSize\<close> produces \<open>K\<close> weights,
  the \<open>i\<close>-th being \<open>exp (-4 x\<^sub>i\<^sup>2)\<close> with \<open>x\<^sub>i = 2 i / K - 1\<close> divided by the sum of all
  of them, and the weights sum to 1 (over the reals exactly, hence within \<open>10\<^sup>-\<^sup>5\<close>).
\<close>

theorem kernel_normalized:
  assumes "1 \<le> K"
  shows "length (setKernelSize K) = K
       \<and> (\<forall>i<K. setKernelSize K ! i
             = exp (- 4 * (2 * real i / real K - 1)\<^sup>2)
               / (\<Sum>j<K. exp (- 4 * (2 * real j / real K - 1)\<^sup>2)))
       \<and> \<bar>sum_list (setKernelSize K) - 1\<bar> \<le> 1 / 100000"
proof -
  let ?ws = "map (kernelSample K) [0 ..< K]"
  have e: "kernelFunction x = exp (- 4 * x\<^sup>2)" for x
    by (simp add: kernelFunction_def power2_eq_square)
  have s: "kernelSample K i = exp (- 4 * (2 * real i / real K - 1)\<^sup>2)" for i
    by (simp only: kernelSample_def e)
  have t: "sum_list ?ws = (\<Sum>j<K. exp (- 4 * (2 * real j / real K - 1)\<^sup>2))"
    by (simp add: sum_list_sum_nth s atLeast0LessThan)
  have len: "length (setKernelSize K) = K" by (simp add: setKernelSize_eq)
  have nth: "\<forall>i<K. setKernelSize K ! i
             = exp (- 4 * (2 * real i / real K - 1)\<^sup>2)
               / (\<Sum>j<K. exp (- 4 * (2 * real j / real K - 1)\<^sup>2))"
    by (simp add: setKernelSize_eq t s)
  have "sum_list (setKernelSize K) = sum_list ?ws / sum_list ?ws"
    by (simp only: setKernelSize_eq sum_list_divide)
  then have "sum_list (setKernelSize K) = 1"
    using kernel_total_pos [OF assms] by simp
  with len nth show ?thesis by simp
qed

text \<open>The statement of C7 at the kernel size 9 that the constructor configures.\<close>

theorem kernel_normalized_witness:
  "(1::nat) \<le> 9 \<and> length (setKernelSize 9) = 9 \<and> \<bar>sum_list (setKernelSize 9) - 1\<bar> \<le> 1 / 100000"
proof -
  have a: "(1::nat) \<le> 9" by simp
  from kernel_normalized [OF a] a show ?thesis by blast
qed

subsection \<open>Threshold compositing\<close>

lemma scale4_0: "scale4 0 p = (0, 0, 0, 0)"
  by (cases p) (simp add: scale4_def)

lemma scale4_1: "scale4 1 p = p"
  by (cases p) (simp add: scale4_def)

lemma add4_0: "add4 p (0, 0, 0, 0) = p"
  by (cases p) (simp add: add4_def)

lemma slope_length_pos: "0 < sqrt (1 + 262144 * (dx\<^sup>2 + dy\<^sup>2))"
proof -
  have "0 \<le> 262144 * (dx\<^sup>2 + dy\<^sup>2)" by simp
  then have "0 < 1 + 262144 * (dx\<^sup>2 + dy\<^sup>2)" by linarith
  then show ?thesis by (simp only: real_sqrt_gt_0_iff)
qed

text \<open>The normal of the display shader in closed form.\<close>

lemma display_normal:
  "normalize3 (cross3 (1 / 512, 0, dx) (0, 1 / 512, dy))
     = (- 512 * dx / sqrt (1 + 262144 * (dx\<^sup>2 + dy\<^sup>2)),
        - 512 * dy / sqrt (1 + 262144 * (dx\<^sup>2 + dy\<^sup>2)),
        1 / sqrt (1 + 262144 * (dx\<^sup>2 + dy\<^sup>2)))"
proof -
  let ?L = "sqrt (1 + 262144 * (dx\<^sup>2 + dy\<^sup>2))"
  have c: "cross3 (1 / 512, 0, dx) (0, 1 / 512, dy) = (- dx / 512, - dy / 512, 1 / 262144)"
    by (simp add: cross3_def)
  have "dot3 (- dx / 512, - dy / 512, 1 / 262144) (- dx / 512, - dy / 512, 1 / 262144)
      = (1 + 262144 * (dx\<^sup>2 + dy\<^sup>2)) / (262144\<^sup>2)"
    by (simp add: dot3_def power2_eq_square field_simps)
  then have l: "sqrt (dot3 (- dx / 512, - dy / 512, 1 / 262144) (- dx / 512, - dy / 512, 1 / 262144))
      = ?L / 262144"
    by (simp only: real_sqrt_divide real_sqrt_abs)
  have L: "?L \<noteq> 0" using slope_length_pos [of dx dy] by simp
  show ?thesis
    unfolding c normalize3_def prod.case l using L by (simp add: field_simps)
qed

lemma smoothstep_range: "0 \<le> smoothstep e0 e1 x" "smoothstep e0 e1 x \<le> 1"
proof -
  define t where "t = min (max ((x - e0) / (e1 - e0)) 0) 1"
  have t: "0 \<le> t" "t \<le> 1" by (simp_all add: t_def)
  have s: "smoothstep e0 e1 x = t * t * (3 - 2 * t)" by (simp add: smoothstep_def t_def Let_def)
  from t have "0 \<le> t * t * (3 - 2 * t)" by simp
  then show "0 \<le> smoothstep e0 e1 x" by (simp only: s)
  have "1 - t * t * (3 - 2 * t) = (1 - t) * (1 - t) * (1 + 2 * t)" by (simp add: algebra_simps)
  moreover from t have "0 \<le> (1 - t) * (1 - t) * (1 + 2 * t)" by simp
  ultimately show "smoothstep e0 e1 x \<le> 1" by (simp only: s)
qed

lemma powr_unit_range:
  assumes "0 \<le> (x::real)" "x \<le> 1"
  shows "0 \<le> x powr (1 / 10)" "x powr (1 / 10) \<le> 1"
proof -
  show "0 \<le> x powr (1 / 10)" by simp
  have "x powr (1 / 10) \<le> 1 powr (1 / 10)" using assms by (intro powr_mono2) simp_all
  then show "x powr (1 / 10) \<le> 1" by simp
qed


lemma display_unit_normal:
  assumes "0 < L"  and "L\<^sup>2 = 1 + 262144 * (dx\<^sup>2 + dy\<^sup>2)"
  shows "(- 512 * dx / L)\<^sup>2 + (- 512 * dy / L)\<^sup>2 + (1 / L)\<^sup>2 = (1::real)"
proof -
  have "(- 512 * dx / L)\<^sup>2 + (- 512 * dy / L)\<^sup>2 + (1 / L)\<^sup>2
      = (1 + 262144 * (dx\<^sup>2 + dy\<^sup>2)) / L\<^sup>2"
    by (simp add: power_divide power_mult_distrib add_divide_distrib algebra_simps)
  also have "\<dots> = L\<^sup>2 / L\<^sup>2" by (simp only: assms(2))
  also have "\<dots> = 1" using assms(1) by simp
  finally show ?thesis .
qed

text \<open>
  Claim C8. A pixel whose blurred alpha is strictly below the threshold gets the colour
  \<open>(0, 0, 0, 0)\<close>, the colour of a cleared pixel, whatever the texel and the options. A
  pixel at or above the threshold is shaded: with the unit normal
  \<open>n = (-512 dx, -512 dy, 1) / L\<close>, \<open>L = sqrt (1 + 512\<^sup>2 (dx\<^sup>2 + dy\<^sup>2))\<close>, of the level
  surface, its colour is the texel, or with \<^verbatim>\<open>uShowNormals\<close> the normal view
  \<open>(0.5 n + 0.5, 1)\<close>, plus with \<^verbatim>\<open>uSpecular\<close> the highlight
  \<open>s = smoothstep(0.99, 1, 0.73 (n\<^sub>x + n\<^sub>y - n\<^sub>z)) ^ 0.1\<close>, between 0 and 1, on the three
  colour channels and nothing on alpha. With both options off it is the texel itself.
\<close>

theorem threshold_discard:
  "(vec4_a texel < uThreshold \<longrightarrow>
      displayFrag uThreshold uShowNormals uSpecular texel dFdx_level dFdy_level = clearColor)
   \<and> (uThreshold \<le> vec4_a texel \<longrightarrow>
      (let L = sqrt (1 + 262144 * (dFdx_level\<^sup>2 + dFdy_level\<^sup>2));
           nx = - 512 * dFdx_level / L;
           ny = - 512 * dFdy_level / L;
           nz = 1 / L;
           s = (if uSpecular then smoothstep 0.99 1 (0.73 * (nx + ny - nz)) powr 0.1 else 0)
       in displayFrag uThreshold uShowNormals uSpecular texel dFdx_level dFdy_level
            = (if uShowNormals
               then (0.5 * nx + 0.5 + s, 0.5 * ny + 0.5 + s, 0.5 * nz + 0.5 + s, 1)
               else (case texel of (r, g, b, a) \<Rightarrow> (r + s, g + s, b + s, a)))
          \<and> nx\<^sup>2 + ny\<^sup>2 + nz\<^sup>2 = 1 \<and> 0 < nz \<and> 0 \<le> s \<and> s \<le> 1))
   \<and> (uThreshold \<le> vec4_a texel \<longrightarrow>
      displayFrag uThreshold False False texel dFdx_level dFdy_level = texel)"
proof -
  define L where "L = sqrt (1 + 262144 * (dFdx_level\<^sup>2 + dFdy_level\<^sup>2))"
  define nx where "nx = - 512 * dFdx_level / L"
  define ny where "ny = - 512 * dFdy_level / L"
  define nz where "nz = 1 / L"
  define sf where "sf = smoothstep 0.99 1 (0.73 * (nx + ny - nz))"
  obtain r g b a where texel: "texel = (r, g, b, a)" by (cases texel) auto
  have Lpos: "0 < L" unfolding L_def by (rule slope_length_pos)
  have "0 \<le> 1 + 262144 * (dFdx_level\<^sup>2 + dFdy_level\<^sup>2)" by (simp add: add_nonneg_nonneg)
  then have Lsq: "L\<^sup>2 = 1 + 262144 * (dFdx_level\<^sup>2 + dFdy_level\<^sup>2)"
    unfolding L_def by (rule real_sqrt_pow2)
  have n: "normalize3 (cross3 (1 / 512, 0, dFdx_level) (0, 1 / 512, dFdy_level)) = (nx, ny, nz)"
    unfolding nx_def ny_def nz_def L_def by (rule display_normal)
  have d: "dot3 (nx, ny, nz) (0.73, 0.73, - 0.73) = 0.73 * (nx + ny - nz)"
    by (simp add: dot3_def algebra_simps)
  have unit: "nx\<^sup>2 + ny\<^sup>2 + nz\<^sup>2 = 1"
    unfolding nx_def ny_def nz_def by (rule display_unit_normal [OF Lpos Lsq])
  have nzpos: "0 < nz" using Lpos by (simp add: nz_def)
  have sf: "0 \<le> sf powr 0.1" "sf powr 0.1 \<le> 1"
    using powr_unit_range [OF smoothstep_range, of "0.99" 1 "0.73 * (nx + ny - nz)"]
    by (simp_all add: sf_def)
  have raw: "displayFrag uThreshold sn sp texel dFdx_level dFdy_level
        = scale4 (step_glsl uThreshold (vec4_a texel))
            (add4 (if sn then (0.5 * nx + 0.5, 0.5 * ny + 0.5, 0.5 * nz + 0.5, 1) else texel)
                  (if \<not> sp then (0, 0, 0, 0) else scale4 (sf powr 0.1) (1, 1, 1, 0)))" for sn sp
    by (simp only: displayFrag_def Let_def n d prod.case sf_def)
  have lo: "displayFrag uThreshold uShowNormals uSpecular texel dFdx_level dFdy_level = clearColor"
    if "vec4_a texel < uThreshold"
    using that by (simp only: raw step_glsl_def if_True scale4_0 clearColor_def)
  have hi: "displayFrag uThreshold sn sp texel dFdx_level dFdy_level
        = (if sn
           then (0.5 * nx + 0.5 + (if sp then sf powr 0.1 else 0),
                 0.5 * ny + 0.5 + (if sp then sf powr 0.1 else 0),
                 0.5 * nz + 0.5 + (if sp then sf powr 0.1 else 0), 1)
           else (r + (if sp then sf powr 0.1 else 0), g + (if sp then sf powr 0.1 else 0),
                 b + (if sp then sf powr 0.1 else 0), a))"
    if "uThreshold \<le> vec4_a texel" for sn sp
  proof -
    from that have "step_glsl uThreshold (vec4_a texel) = 1" by (simp add: step_glsl_def)
    then show ?thesis
      by (simp only: raw scale4_1) (simp add: add4_def scale4_def texel)
  qed
  have off: "displayFrag uThreshold False False texel dFdx_level dFdy_level = texel"
    if "uThreshold \<le> vec4_a texel"
    using hi [OF that, of False False] by (simp add: texel)
  have shaded: "displayFrag uThreshold uShowNormals uSpecular texel dFdx_level dFdy_level
            = (if uShowNormals
               then (0.5 * nx + 0.5 + (if uSpecular then sf powr 0.1 else 0),
                     0.5 * ny + 0.5 + (if uSpecular then sf powr 0.1 else 0),
                     0.5 * nz + 0.5 + (if uSpecular then sf powr 0.1 else 0), 1)
               else (case texel of (r, g, b, a) \<Rightarrow>
                     (r + (if uSpecular then sf powr 0.1 else 0),
                      g + (if uSpecular then sf powr 0.1 else 0),
                      b + (if uSpecular then sf powr 0.1 else 0), a)))
          \<and> nx\<^sup>2 + ny\<^sup>2 + nz\<^sup>2 = 1 \<and> 0 < nz
          \<and> 0 \<le> (if uSpecular then sf powr 0.1 else 0)
          \<and> (if uSpecular then sf powr 0.1 else 0) \<le> 1"
    if "uThreshold \<le> vec4_a texel"
    using hi [OF that, of uShowNormals uSpecular] unit nzpos sf by (simp add: texel)
  from lo shaded off show ?thesis
    unfolding Let_def L_def [symmetric] nx_def [symmetric] ny_def [symmetric] nz_def [symmetric]
      sf_def [symmetric]
    by blast
qed


lemma sqrt_9801: "sqrt 9801 = 99"
  using real_sqrt_abs [of 99] by simp

text \<open>
  The statement of C8 at threshold 0.5: a pixel below it; a pixel above it on a steep
  slope facing the light, which gets the full highlight; and a pixel above it on a flat
  surface in the normal view.
\<close>

theorem threshold_discard_witness:
  "vec4_a (0.2, 0.4, 0.9, 0.3) < 0.5
   \<and> displayFrag 0.5 False True (0.2, 0.4, 0.9, 0.3) 0 0 = clearColor
   \<and> (0.5 :: real) \<le> vec4_a (0.2, 0.4, 0.9, 0.8)
   \<and> displayFrag 0.5 False True (0.2, 0.4, 0.9, 0.8) (- 70 / 512) (- 70 / 512) = (1.2, 1.4, 1.9, 0.8)
   \<and> displayFrag 0.5 True False (0.2, 0.4, 0.9, 0.8) 0 0 = (0.5, 0.5, 1, 1)
   \<and> displayFrag 0.5 False False (0.2, 0.4, 0.9, 0.8) 0 0 = (0.2, 0.4, 0.9, 0.8)"
proof -
  have a: "vec4_a (0.2, 0.4, 0.9, 0.3) < 0.5" by (simp add: vec4_a_def)
  have b: "(0.5 :: real) \<le> vec4_a (0.2, 0.4, 0.9, 0.8)" by (simp add: vec4_a_def)
  have l: "sqrt (1 + 262144 * ((- 70 / 512)\<^sup>2 + (- 70 / 512)\<^sup>2)) = (99::real)"
  proof -
    have "1 + 262144 * ((- 70 / 512)\<^sup>2 + (- 70 / 512)\<^sup>2) = (9801::real)"
      by (simp add: power2_eq_square)
    then show ?thesis by (simp only: sqrt_9801)
  qed
  have 1: "displayFrag 0.5 False True (0.2, 0.4, 0.9, 0.3) 0 0 = clearColor"
    using threshold_discard [of "(0.2, 0.4, 0.9, 0.3)" "0.5" False True 0 0] a by blast
  have 2: "displayFrag 0.5 False True (0.2, 0.4, 0.9, 0.8) (- 70 / 512) (- 70 / 512)
           = (1.2, 1.4, 1.9, 0.8)"
    using threshold_discard [of "(0.2, 0.4, 0.9, 0.8)" "0.5" False True "- 70 / 512" "- 70 / 512"] b
    by (simp only: l Let_def) (simp add: smoothstep_def)
  have 3: "displayFrag 0.5 True False (0.2, 0.4, 0.9, 0.8) 0 0 = (0.5, 0.5, 1, 1)"
    using threshold_discard [of "(0.2, 0.4, 0.9, 0.8)" "0.5" True False 0 0] b
    by (simp add: Let_def)
  have 4: "displayFrag 0.5 False False (0.2, 0.4, 0.9, 0.8) 0 0 = (0.2, 0.4, 0.9, 0.8)"
    using threshold_discard [of "(0.2, 0.4, 0.9, 0.8)" "0.5" False False 0 0] b by blast
  from a b 1 2 3 4 show ?thesis by (simp only: simp_thms)
qed

subsection \<open>Drawing a static obstacle\<close>

lemma addStaticVert_cornerAt:
  assumes "fst b \<noteq> 0" "snd b \<noteq> 0"
  shows "addStaticVert m b (cornerAt m b c)
       = ((2 * (fst c - fst m) / fst b, 2 * (snd c - snd m) / snd b), c)"
  using assms by (cases c) (simp add: addStaticVert_def cornerAt_def Let_def field_simps)

lemma setMobileObstacle_static:
  "staticTexture (setMobileObstacle nanTexel this m) = staticTexture this"
  by (simp add: setMobileObstacle_def)

lemma addStaticObstacle_static:
  "staticTexture (addStaticObstacle covers nanTexel this m)
     = drawBrush covers nanTexel m (brushSize this) (staticTexture this)"
  by (simp add: addStaticObstacle_def Let_def setMobileObstacle_static)

lemma drawBrush_size:
  "tex_width (drawBrush covers nanTexel m b t) = tex_width t"
  "tex_height (drawBrush covers nanTexel m b t) = tex_height t"
  "length (tex_data (drawBrush covers nanTexel m b t)) = tex_width t * tex_height t"
  by (simp_all add: drawBrush_def)

lemma drawBrush_texel:
  assumes "k < tex_width t * tex_height t" "fst b \<noteq> 0" "snd b \<noteq> 0"
  shows "tex_data (drawBrush covers nanTexel m b t) ! k
       = (let c = pixelCentre (tex_width t) (tex_height t) k;
              fromCenter = (2 * (fst c - fst m) / fst b, 2 * (snd c - snd m) / snd b)
          in if covers (cornerAt m b c)
             then writePixel nanTexel (tex_data t ! k) (addStaticFrag fromCenter)
             else tex_data t ! k)"
  using assms by (simp add: drawBrush_def brushPixel_def Let_def addStaticVert_cornerAt)

lemma length2_normalize2: "v \<noteq> (0, 0) \<Longrightarrow> length2 (normalize2 v) = 1"
proof -
  assume "v \<noteq> (0, 0)"
  then have "length2 v \<noteq> 0" by (simp add: length2_eq_0_iff)
  then have "0 < length2 v" using length2_nonneg [of v] by simp
  then show ?thesis by (simp add: normalize2_def length2_scale2)
qed

lemma unit_components:
  assumes "length2 n = 1"
  shows "\<bar>fst n\<bar> \<le> 1" "\<bar>snd n\<bar> \<le> 1"
proof -
  from assms have d: "dot2 n n = 1" using length2_sq [of n] by simp
  have "(fst n)\<^sup>2 \<le> dot2 n n" "(snd n)\<^sup>2 \<le> dot2 n n"
    by (simp_all add: dot2_def power2_eq_square)
  with d have "(fst n)\<^sup>2 \<le> 1\<^sup>2" "(snd n)\<^sup>2 \<le> 1\<^sup>2" by simp_all
  then show "\<bar>fst n\<bar> \<le> 1" "\<bar>snd n\<bar> \<le> 1"
    by (simp_all add: abs_square_le_1)
qed

lemma inside_disc_inside_quad:
  assumes "dot2 f f < 1"
  shows "\<bar>fst f\<bar> < 1" "\<bar>snd f\<bar> < 1"
proof -
  have "(fst f)\<^sup>2 \<le> dot2 f f" "(snd f)\<^sup>2 \<le> dot2 f f"
    by (simp_all add: dot2_def power2_eq_square)
  with assms have "(fst f)\<^sup>2 < 1\<^sup>2" "(snd f)\<^sup>2 < 1\<^sup>2" by simp_all
  then show "\<bar>fst f\<bar> < 1" "\<bar>snd f\<bar> < 1"
    by (simp_all add: abs_square_less_1)
qed

lemma cornerAt_interior:
  assumes "0 < fst b" "0 < snd b"
    and "dot2 (2 * (fst c - fst m) / fst b, 2 * (snd c - snd m) / snd b)
              (2 * (fst c - fst m) / fst b, 2 * (snd c - snd m) / snd b) < 1"
  shows "0 < fst (cornerAt m b c) \<and> fst (cornerAt m b c) < 1
       \<and> 0 < snd (cornerAt m b c) \<and> snd (cornerAt m b c) < 1"
proof -
  let ?f = "(2 * (fst c - fst m) / fst b, 2 * (snd c - snd m) / snd b)"
  have h: "2 * u / v / 2 = u / v" for u v :: real by simp
  have x: "fst (cornerAt m b c) = fst ?f / 2 + 0.5" and y: "snd (cornerAt m b c) = snd ?f / 2 + 0.5"
    by (simp_all only: cornerAt_def fst_conv snd_conv h)
  have half: "0 < u / 2 + 0.5 \<and> u / 2 + 0.5 < 1" if "\<bar>u\<bar> < 1" for u :: real
    using that by (simp add: abs_less_iff)
  have "0 < fst ?f / 2 + 0.5 \<and> fst ?f / 2 + 0.5 < 1"
    by (rule half) (rule inside_disc_inside_quad(1) [OF assms(3)])
  moreover have "0 < snd ?f / 2 + 0.5 \<and> snd ?f / 2 + 0.5 < 1"
    by (rule half) (rule inside_disc_inside_quad(2) [OF assms(3)])
  ultimately show ?thesis by (simp only: x y)
qed

text \<open>The 8-bit store: the byte, and the error of the texel it leaves.\<close>

lemma unorm8_eq:
  assumes "0 \<le> f" "f \<le> 1" "real b - 1 / 2 \<le> 255 * f" "255 * f < real b + 1 / 2"
  shows "unorm8 f = b"
proof -
  from assms(1,2) have c: "min (max f 0) 1 = f" by simp
  have "\<lfloor>255 * f + 1 / 2\<rfloor> = int b"
    by (rule floor_unique) (use assms(3,4) in simp_all)
  then show ?thesis by (simp add: unorm8_def c)
qed

lemma unorm8_error:
  assumes "0 \<le> f" "f \<le> 1"
  shows "\<bar>real (unorm8 f) / 255 - f\<bar> \<le> 1 / 510"
proof -
  from assms have c: "min (max f 0) 1 = f" by simp
  let ?z = "\<lfloor>255 * f + 1 / 2\<rfloor>"
  have z0: "0 \<le> ?z" using assms(1) by simp
  have lo: "of_int ?z \<le> 255 * f + 1 / 2" by (rule of_int_floor_le)
  have hi: "255 * f + 1 / 2 < of_int ?z + 1" by linarith
  have r: "real (unorm8 f) = of_int ?z" using z0 by (simp add: unorm8_def c)
  from lo hi have "\<bar>of_int ?z - 255 * f\<bar> \<le> 1 / 2" by linarith
  then have "\<bar>of_int ?z / 255 - f\<bar> \<le> 1 / 510" by (simp add: abs_le_iff field_simps)
  then show ?thesis by (simp only: r)
qed

lemma storeRG8_decode:
  assumes "\<bar>u\<bar> \<le> 1"
  shows "\<bar>2 * (real (unorm8 (0.5 * u + 0.5)) / 255) - 1 - u\<bar> \<le> 1 / 255"
proof -
  from assms have "0 \<le> 0.5 * u + 0.5" "0.5 * u + 0.5 \<le> 1" by (simp_all add: abs_le_iff)
  from unorm8_error [OF this]
  have "\<bar>real (unorm8 (0.5 * u + 0.5)) / 255 - (0.5 * u + 0.5)\<bar> \<le> 1 / 510" .
  then show ?thesis by linarith
qed


lemma sampleMap_fields:
  "staticTexture sampleMap = initTexture 4 4" "brushSize sampleMap = (1 / 2, 1 / 2)"
  by (simp_all add: sampleMap_def resetObstacles_def)

lemma addStaticFrag_centre: "addStaticFrag (0, 0) = ColorNaN"
  by (simp add: addStaticFrag_def normalizeNaN_def length2_def dot2_def)

lemma closedQuad_coversInterior: "coversInterior closedQuad"
  by (simp add: coversInterior_def closedQuad_def inQuad_def)

text \<open>
  Claim C9 fails as stated. On the fresh 4 by 4 map with a brush of half the canvas
  centred on \<open>(3/8, 3/8)\<close>, the centre of pixel 5: that pixel is inside the disc, the
  vector from the disc centre to it is zero, the shader's colour there is not a number,
  and the texel is whatever the implementation stores for such a colour. Shown for an
  implementation storing 0 and for one storing 255; neither texel decodes to a unit
  vector.
\<close>

theorem addStaticObstacle_centre_counterexample:
  "pixelCentre (tex_width (staticTexture sampleMap)) (tex_height (staticTexture sampleMap)) 5
     = (3 / 8, 3 / 8)
   \<and> dot2 (0, 0) (0, 0) < 1
   \<and> addStaticFrag (0, 0) = ColorNaN
   \<and> tex_data (staticTexture (addStaticObstacle closedQuad (0, 0) sampleMap (3 / 8, 3 / 8))) ! 5
       = (0, 0)
   \<and> tex_data (staticTexture (addStaticObstacle closedQuad (1, 1) sampleMap (3 / 8, 3 / 8))) ! 5
       = (1, 1)
   \<and> length2 (decodeObstacle (0, 0)) \<noteq> 1
   \<and> length2 (decodeObstacle (1, 1)) \<noteq> 1"
proof -
  have c: "pixelCentre (tex_width (staticTexture sampleMap)) (tex_height (staticTexture sampleMap)) 5
     = (3 / 8, 3 / 8)"
    by (simp add: sampleMap_fields initTexture_size pixelCentre_def)
  have k: "5 < tex_width (staticTexture sampleMap) * tex_height (staticTexture sampleMap)"
    by (simp add: sampleMap_fields initTexture_size)
  have t: "tex_data (staticTexture (addStaticObstacle closedQuad nt sampleMap (3 / 8, 3 / 8))) ! 5 = nt"
    for nt
    unfolding addStaticObstacle_static
    by (subst drawBrush_texel [OF k])
       (simp_all add: sampleMap_fields initTexture_size pixelCentre_def Let_def cornerAt_def
          closedQuad_def inQuad_def addStaticFrag_centre writePixel_def)
  have d: "length2 (decodeObstacle (0, 0)) \<noteq> 1" "length2 (decodeObstacle (1, 1)) \<noteq> 1"
    by (simp_all add: decodeObstacle_def length2_def dot2_def)
  from c t [of "(0, 0)"] t [of "(1, 1)"] d addStaticFrag_centre show ?thesis
    by (simp add: dot2_def)
qed

text \<open>
  Claim C9, amended. \<^verbatim>\<open>addStaticObstacle\<close> with a brush of positive size, on a
  rasteriser that draws every pixel whose centre is strictly inside the brush quad: a
  pixel of the static layer strictly inside the brush disc and not centred on the disc
  centre gets, whatever it held before, the RG8 encoding of the unit vector \<open>n\<close> pointing
  from the disc centre to the pixel, that is \<open>0.5 * n + 0.5\<close> rounded to a byte per
  channel, which decodes to within \<open>1/255\<close> of \<open>n\<close> in each component; a pixel outside the
  disc keeps its texel; the size of the layer does not change.
\<close>

theorem addStaticObstacle_frame:
  assumes "0 < fst (brushSize this)" and "0 < snd (brushSize this)"
    and "coversInterior covers"
    and "k < tex_width (staticTexture this) * tex_height (staticTexture this)"
  shows "(let c = pixelCentre (tex_width (staticTexture this)) (tex_height (staticTexture this)) k;
              fromCenter = (2 * (fst c - fst mousePos) / fst (brushSize this),
                            2 * (snd c - snd mousePos) / snd (brushSize this));
              n = normalize2 fromCenter;
              new = staticTexture (addStaticObstacle covers nanTexel this mousePos)
          in (dot2 fromCenter fromCenter < 1 \<and> fromCenter \<noteq> (0, 0) \<longrightarrow>
                tex_data new ! k = storeRG8 (0.5 * fst n + 0.5, 0.5 * snd n + 0.5)
                \<and> n = scale2 (1 / length2 fromCenter) fromCenter
                \<and> length2 n = 1
                \<and> \<bar>fst (decodeObstacle (tex_data new ! k)) - fst n\<bar> \<le> 1 / 255
                \<and> \<bar>snd (decodeObstacle (tex_data new ! k)) - snd n\<bar> \<le> 1 / 255)
           \<and> (dot2 fromCenter fromCenter > 1 \<longrightarrow>
                tex_data new ! k = tex_data (staticTexture this) ! k)
           \<and> tex_width new = tex_width (staticTexture this)
           \<and> tex_height new = tex_height (staticTexture this)
           \<and> length (tex_data new) = tex_width (staticTexture this) * tex_height (staticTexture this))"
proof -
  let ?t = "staticTexture this" and ?b = "brushSize this"
  let ?c = "pixelCentre (tex_width ?t) (tex_height ?t) k"
  let ?f = "(2 * (fst ?c - fst mousePos) / fst ?b, 2 * (snd ?c - snd mousePos) / snd ?b)"
  let ?n = "normalize2 ?f"
  let ?new = "drawBrush covers nanTexel mousePos ?b ?t"
  from assms(1,2) have nz: "fst ?b \<noteq> 0" "snd ?b \<noteq> 0" by simp_all
  have texel: "tex_data ?new ! k
       = (if covers (cornerAt mousePos ?b ?c)
          then writePixel nanTexel (tex_data ?t ! k) (addStaticFrag ?f)
          else tex_data ?t ! k)"
    using drawBrush_texel [OF assms(4) nz] by (simp add: Let_def)
  have inside: "tex_data ?new ! k = storeRG8 (0.5 * fst ?n + 0.5, 0.5 * snd ?n + 0.5)
        \<and> ?n = scale2 (1 / length2 ?f) ?f
        \<and> length2 ?n = 1
        \<and> \<bar>fst (decodeObstacle (tex_data ?new ! k)) - fst ?n\<bar> \<le> 1 / 255
        \<and> \<bar>snd (decodeObstacle (tex_data ?new ! k)) - snd ?n\<bar> \<le> 1 / 255"
    if d: "dot2 ?f ?f < 1" and f0: "?f \<noteq> (0, 0)"
  proof -
    from cornerAt_interior [OF assms(1,2) d] assms(3)
    have cov: "covers (cornerAt mousePos ?b ?c)" unfolding coversInterior_def by blast
    from f0 have "length2 ?f \<noteq> 0" by (simp only: length2_eq_0_iff) simp
    then have "normalizeNaN ?f = Some ?n" by (simp only: normalizeNaN_def if_False)
    with d have "addStaticFrag ?f = Color (0.5 * fst ?n + 0.5, 0.5 * snd ?n + 0.5)"
      by (simp add: addStaticFrag_def)
    with cov have st: "tex_data ?new ! k = storeRG8 (0.5 * fst ?n + 0.5, 0.5 * snd ?n + 0.5)"
      by (simp only: texel if_True writePixel_def fragment.case)
    have unit: "length2 ?n = 1" by (rule length2_normalize2 [OF f0])
    have dx: "\<bar>fst (decodeObstacle (tex_data ?new ! k)) - fst ?n\<bar> \<le> 1 / 255"
      unfolding st storeRG8_def decodeObstacle_def fst_conv snd_conv
      by (rule storeRG8_decode [OF unit_components(1) [OF unit]])
    have dy: "\<bar>snd (decodeObstacle (tex_data ?new ! k)) - snd ?n\<bar> \<le> 1 / 255"
      unfolding st storeRG8_def decodeObstacle_def fst_conv snd_conv
      by (rule storeRG8_decode [OF unit_components(2) [OF unit]])
    from st unit dx dy show ?thesis by (simp only: normalize2_def simp_thms)
  qed
  have outside: "tex_data ?new ! k = tex_data ?t ! k" if d: "dot2 ?f ?f > 1"
  proof -
    from d have "addStaticFrag ?f = Discarded" by (simp add: addStaticFrag_def)
    then show ?thesis by (simp only: texel writePixel_def fragment.case if_cancel)
  qed
  show ?thesis
    unfolding Let_def addStaticObstacle_static
    using inside outside drawBrush_size [of covers nanTexel mousePos ?b ?t]
    by blast
qed


lemma sqrt_half_bounds: "180 / 255 < sqrt (1 / 2)" "sqrt (1 / 2) \<le> 182 / 255"
proof -
  show "180 / 255 < sqrt (1 / 2)" by (rule real_less_rsqrt) (simp add: power2_eq_square)
  show "sqrt (1 / 2) \<le> 182 / 255" by (rule real_le_lsqrt) (simp_all add: power2_eq_square)
qed

lemma normalize2_diagonal: "normalize2 (- 1 / 2, - 1 / 2) = (- sqrt (1 / 2), - sqrt (1 / 2))"
proof -
  define r where "r = sqrt (1 / 2)"
  have rpos: "0 < r" by (simp add: r_def)
  have rr: "r * r = 1 / 2" by (simp add: r_def)
  have l: "length2 (- 1 / 2, - 1 / 2) = r"
    by (simp add: length2_def dot2_def r_def)
  have "1 / r * (- 1 / 2) = - (r * r) / r" by (simp add: rr)
  also have "\<dots> = - r" using rpos by simp
  finally have "1 / r * (- 1 / 2) = - r" .
  then show ?thesis
    unfolding normalize2_def scale2_def l fst_conv snd_conv r_def by (simp only:)
qed

lemma storeRG8_diagonal:
  "storeRG8 (0.5 * (- sqrt (1 / 2)) + 0.5, 0.5 * (- sqrt (1 / 2)) + 0.5) = (37 / 255, 37 / 255)"
proof -
  have "unorm8 (0.5 * (- sqrt (1 / 2)) + 0.5) = 37"
    by (rule unorm8_eq) (use sqrt_half_bounds in simp_all)
  then show ?thesis by (simp add: storeRG8_def)
qed

text \<open>
  The amended C9 on the fresh 4 by 4 map, brush centred on the canvas: pixel 5
  (column 1, row 1) is inside the disc, the unit vector towards it is
  \<open>(-sqrt (1/2), -sqrt (1/2))\<close>, and the texel stored is the byte pair 37, 37; pixel 0
  (a corner) is outside and keeps the fresh texel.
\<close>

theorem addStaticObstacle_frame_witness:
  "0 < fst (brushSize sampleMap) \<and> 0 < snd (brushSize sampleMap) \<and> coversInterior closedQuad
   \<and> 5 < tex_width (staticTexture sampleMap) * tex_height (staticTexture sampleMap)
   \<and> 0 < tex_width (staticTexture sampleMap) * tex_height (staticTexture sampleMap)
   \<and> tex_data (staticTexture (addStaticObstacle closedQuad (0, 0) sampleMap (1 / 2, 1 / 2))) ! 5
       = (37 / 255, 37 / 255)
   \<and> tex_data (staticTexture (addStaticObstacle closedQuad (0, 0) sampleMap (1 / 2, 1 / 2))) ! 0
       = (127 / 255, 127 / 255)"
proof -
  have a: "0 < fst (brushSize sampleMap)" and b: "0 < snd (brushSize sampleMap)"
    by (simp_all add: sampleMap_fields)
  have c: "coversInterior closedQuad" by (rule closedQuad_coversInterior)
  have d5: "5 < tex_width (staticTexture sampleMap) * tex_height (staticTexture sampleMap)"
    and d0: "0 < tex_width (staticTexture sampleMap) * tex_height (staticTexture sampleMap)"
    by (simp_all add: sampleMap_fields initTexture_size)
  have old: "tex_data (staticTexture sampleMap) ! 0 = (127 / 255, 127 / 255)"
    by (simp add: sampleMap_fields initTexture_texel)
  from addStaticObstacle_frame [OF a b c d5, of "(1 / 2, 1 / 2)" "(0, 0)"]
  have "tex_data (staticTexture (addStaticObstacle closedQuad (0, 0) sampleMap (1 / 2, 1 / 2))) ! 5
       = storeRG8 (0.5 * fst (normalize2 (- 1 / 2, - 1 / 2)) + 0.5,
                   0.5 * snd (normalize2 (- 1 / 2, - 1 / 2)) + 0.5)"
    by (simp add: Let_def sampleMap_fields initTexture_size pixelCentre_def dot2_def)
  then have in5: "tex_data (staticTexture (addStaticObstacle closedQuad (0, 0) sampleMap (1 / 2, 1 / 2))) ! 5
       = (37 / 255, 37 / 255)"
    by (simp only: normalize2_diagonal fst_conv snd_conv storeRG8_diagonal)
  from addStaticObstacle_frame [OF a b c d0, of "(1 / 2, 1 / 2)" "(0, 0)"]
  have out0: "tex_data (staticTexture (addStaticObstacle closedQuad (0, 0) sampleMap (1 / 2, 1 / 2))) ! 0
       = tex_data (staticTexture sampleMap) ! 0"
    by (simp add: Let_def sampleMap_fields initTexture_size pixelCentre_def dot2_def)
  from a b c d5 d0 in5 out0 old show ?thesis by (simp only: simp_thms)
qed

subsection \<open>Positions stay within the bandwidth\<close>

lemma texelFetch_range:
  assumes "texelsInRange t" "i < tex_width t" "j < tex_height t"
  shows "0 \<le> fst (texelFetch t i j)" "fst (texelFetch t i j) \<le> 1"
        "0 \<le> snd (texelFetch t i j)" "snd (texelFetch t i j) \<le> 1"
proof -
  from assms have "j * tex_width t + i < length (tex_data t)"
    by (simp add: texelsInRange_def row_major_less)
  then have "texelFetch t i j \<in> set (tex_data t)" by (simp add: texelFetch_def)
  with assms(1) show "0 \<le> fst (texelFetch t i j)" "fst (texelFetch t i j) \<le> 1"
        "0 \<le> snd (texelFetch t i j)" "snd (texelFetch t i j) \<le> 1"
    by (simp_all add: texelsInRange_def)
qed

lemma bilinear_range:
  fixes a b c00 c10 c01 c11 :: real
  assumes a: "0 \<le> a \<and> a \<le> 1" and b: "0 \<le> b \<and> b \<le> 1"
    and c00: "0 \<le> c00 \<and> c00 \<le> 1" and c10: "0 \<le> c10 \<and> c10 \<le> 1"
    and c01: "0 \<le> c01 \<and> c01 \<le> 1" and c11: "0 \<le> c11 \<and> c11 \<le> 1"
  shows "0 \<le> (1 - a) * (1 - b) * c00 + a * (1 - b) * c10 + ((1 - a) * b * c01 + a * b * c11)"
    and "(1 - a) * (1 - b) * c00 + a * (1 - b) * c10 + ((1 - a) * b * c01 + a * b * c11) \<le> 1"
proof -
  have w: "0 \<le> (1 - a) * (1 - b)" "0 \<le> a * (1 - b)" "0 \<le> (1 - a) * b" "0 \<le> a * b"
    using a b by simp_all
  have t: "0 \<le> (1 - a) * (1 - b) * c00" "0 \<le> a * (1 - b) * c10"
          "0 \<le> (1 - a) * b * c01" "0 \<le> a * b * c11"
    using w c00 c10 c01 c11 by (simp_all only: mult_nonneg_nonneg)
  then show "0 \<le> (1 - a) * (1 - b) * c00 + a * (1 - b) * c10
                 + ((1 - a) * b * c01 + a * b * c11)"
    by linarith
  have "(1 - a) * (1 - b) * c00 \<le> (1 - a) * (1 - b) * 1"
       "a * (1 - b) * c10 \<le> a * (1 - b) * 1"
       "(1 - a) * b * c01 \<le> (1 - a) * b * 1" "a * b * c11 \<le> a * b * 1"
    using w c00 c10 c01 c11 by (intro mult_left_mono; simp)+
  moreover have "(1 - a) * (1 - b) * 1 + a * (1 - b) * 1 + ((1 - a) * b * 1 + a * b * 1) = 1"
    by (simp add: algebra_simps)
  ultimately
  show "(1 - a) * (1 - b) * c00 + a * (1 - b) * c10 + ((1 - a) * b * c01 + a * b * c11) \<le> 1"
    by linarith
qed

lemma texture2D_range:
  assumes "texelsInRange t"
  shows "0 \<le> fst (texture2D t coord)" "fst (texture2D t coord) \<le> 1"
        "0 \<le> snd (texture2D t coord)" "snd (texture2D t coord) \<le> 1"
proof -
  from assms have w: "0 < tex_width t" and h: "0 < tex_height t"
    by (simp_all add: texelsInRange_def)
  define u where "u = fst coord * real (tex_width t) - 1 / 2"
  define v where "v = snd coord * real (tex_height t) - 1 / 2"
  define i0 where "i0 = clampIndex \<lfloor>u\<rfloor> (tex_width t)"
  define i1 where "i1 = clampIndex (\<lfloor>u\<rfloor> + 1) (tex_width t)"
  define j0 where "j0 = clampIndex \<lfloor>v\<rfloor> (tex_height t)"
  define j1 where "j1 = clampIndex (\<lfloor>v\<rfloor> + 1) (tex_height t)"
  have i: "i0 < tex_width t" "i1 < tex_width t" and j: "j0 < tex_height t" "j1 < tex_height t"
    using w h by (simp_all add: i0_def i1_def j0_def j1_def clampIndex_less)
  have a: "0 \<le> frac u" "frac u \<le> 1" and b: "0 \<le> frac v" "frac v \<le> 1"
    by (simp_all add: frac_lt_1 less_imp_le)
  have e: "texture2D t coord
      = ((1 - frac u) * (1 - frac v) * fst (texelFetch t i0 j0)
           + frac u * (1 - frac v) * fst (texelFetch t i1 j0)
           + ((1 - frac u) * frac v * fst (texelFetch t i0 j1)
              + frac u * frac v * fst (texelFetch t i1 j1)),
         (1 - frac u) * (1 - frac v) * snd (texelFetch t i0 j0)
           + frac u * (1 - frac v) * snd (texelFetch t i1 j0)
           + ((1 - frac u) * frac v * snd (texelFetch t i0 j1)
              + frac u * frac v * snd (texelFetch t i1 j1)))"
    by (simp add: texture2D_def Let_def add2_def scale2_def u_def v_def i0_def i1_def j0_def j1_def)
  note f = texelFetch_range [OF assms]
  show "0 \<le> fst (texture2D t coord)" "fst (texture2D t coord) \<le> 1"
    unfolding e fst_conv
    by (rule bilinear_range; use a b f(1,2) i j in blast)+
  show "0 \<le> snd (texture2D t coord)" "snd (texture2D t coord) \<le> 1"
    unfolding e snd_conv
    by (rule bilinear_range; use a b f(3,4) i j in blast)+
qed

lemma decoded_normal_range:
  assumes "texelsInRange t"
  shows "\<bar>fst (decodeObstacle (texture2D t coord))\<bar> \<le> 1"
  using texture2D_range(1,2) [OF assms, of coord] by (simp add: decodeObstacle_def abs_le_iff)

lemma abs_fst_le_length2: "\<bar>fst v\<bar> \<le> length2 v"
proof -
  have "(fst v)\<^sup>2 \<le> dot2 v v" by (simp add: dot2_def power2_eq_square)
  then have "sqrt ((fst v)\<^sup>2) \<le> sqrt (dot2 v v)" by (simp only: real_sqrt_le_iff)
  then show ?thesis by (simp add: length2_def)
qed

lemma nextVelocity_x_bound:
  "\<bar>fst (nextVelocity (worldOf w h) t uDt acc pos vel)\<bar> \<le> MAX_SPEED (worldOf w h)"
proof -
  have "length2 (nextVelocity (worldOf w h) t uDt acc pos vel) \<le> MAX_SPEED (worldOf w h)"
    by (simp add: nextVelocity_def Let_def clampSpeed_le MAX_SPEED_worldOf_nonneg)
  with abs_fst_le_length2 [of "nextVelocity (worldOf w h) t uDt acc pos vel"]
  show ?thesis by linarith
qed


lemma texelsInRange_initTexture: "0 < w \<Longrightarrow> 0 < h \<Longrightarrow> texelsInRange (initTexture w h)"
  by (simp add: texelsInRange_def initTexture_size tex_data_initTexture)

lemma updateVert_in_band:
  assumes t: "texelsInRange t" and dt: "0 \<le> uDt"
    and small: "uDt * (MAX_SPEED (worldOf w h) + 1) \<le> POS_BANDWIDTH (worldOf w h)"
    and band: "\<bar>fst pos\<bar> \<le> 0.5 * POS_BANDWIDTH (worldOf w h)"
  shows "\<bar>fst (fst (updateVert (worldOf w h) t uDt acc pos vel))\<bar> \<le> 0.5 * POS_BANDWIDTH (worldOf w h)"
proof -
  let ?c = "worldOf w h"
  let ?nv = "nextVelocity ?c t uDt acc pos vel"
  let ?q = "nudgedPos ?c t uDt pos ?nv"
  let ?r = "reinjectPos ?c pos vel ?q"
  have B0: "0 \<le> POS_BANDWIDTH ?c" by (rule POS_BANDWIDTH_worldOf_nonneg)
  have "\<bar>fst ?r\<bar> \<le> 1.5 * POS_BANDWIDTH ?c"
  proof (cases "belowWorld ?c pos")
    case True
    have W0: "0 \<le> WORLD_SIZE_x ?c" by (simp add: WORLD_SIZE_worldOf)
    have "fst ?r = (random_glsl (add2 pos vel) - 0.5) * WORLD_SIZE_x ?c"
      using True by (simp add: reinjectPos_def)
    moreover have "\<bar>(random_glsl (add2 pos vel) - 0.5) * WORLD_SIZE_x ?c\<bar> \<le> 0.5 * WORLD_SIZE_x ?c"
      by (rule centred_bound [OF random_glsl_range W0])
    ultimately have "\<bar>fst ?r\<bar> \<le> 0.5 * WORLD_SIZE_x ?c" by simp
    with bandwidth_ge_world(1) [of w h] B0 show ?thesis by linarith
  next
    case False
    let ?n = "decodeObstacle (texture2D t (obstacleCoords ?c (add2 pos (scale2 uDt ?nv))))"
    have q: "fst ?q = fst pos + uDt * fst ?nv + uDt * fst ?n"
      by (simp add: nudgedPos_def Let_def add2_def scale2_def)
    have "\<bar>uDt * fst ?nv\<bar> \<le> uDt * MAX_SPEED ?c"
      using dt nextVelocity_x_bound [of w h t uDt acc pos vel]
      by (simp add: abs_mult mult_left_mono)
    moreover have "\<bar>uDt * fst ?n\<bar> \<le> uDt * 1"
      using dt decoded_normal_range [OF t, of "obstacleCoords ?c (add2 pos (scale2 uDt ?nv))"]
      by (simp only: abs_mult abs_of_nonneg [OF dt]) (rule mult_left_mono)
    ultimately have "\<bar>fst ?q\<bar> \<le> \<bar>fst pos\<bar> + uDt * (MAX_SPEED ?c + 1)"
      unfolding q by (simp add: algebra_simps)
    with band small have "\<bar>fst ?q\<bar> \<le> 1.5 * POS_BANDWIDTH ?c" by linarith
    with False show ?thesis by (simp add: reinjectPos_def)
  qed
  from wrapPos_closure [OF B0 this]
  have "- 0.5 * POS_BANDWIDTH ?c \<le> fst (wrapPos ?c ?r)" "fst (wrapPos ?c ?r) \<le> 0.5 * POS_BANDWIDTH ?c"
    by simp_all
  then have "\<bar>fst (wrapPos ?c ?r)\<bar> \<le> 0.5 * POS_BANDWIDTH ?c" by linarith
  then show ?thesis by (simp only: updateVert_fst)
qed

lemma step_small_enough:
  assumes "0 < max w h" "0 \<le> uDt" "uDt \<le> 0.1"
  shows "uDt * (MAX_SPEED (worldOf w h) + 1) \<le> POS_BANDWIDTH (worldOf w h)"
proof -
  have m: "real (min w h) \<le> real (max w h)" by simp
  from assms(1) have "1 \<le> max w h" by simp
  then have "real 1 \<le> real (max w h)" by (simp only: of_nat_le_iff)
  then have "1 \<le> real (max w h)" by simp
  have M0: "0 \<le> MAX_SPEED (worldOf w h) + 1" using MAX_SPEED_worldOf_nonneg [of w h] by simp
  have "uDt * (MAX_SPEED (worldOf w h) + 1) \<le> 0.1 * (MAX_SPEED (worldOf w h) + 1)"
    using assms(3) M0 by (rule mult_right_mono)
  also have "\<dots> = 0.05 * real (min w h) + 0.1" by (simp add: MAX_SPEED_worldOf)
  also have "\<dots> \<le> 6 * real (max w h) / 5" using m \<open>1 \<le> real (max w h)\<close> by simp
  finally show ?thesis by (simp only: POS_BANDWIDTH_worldOf)
qed


text \<open>
  Claim C4. For every particle whose \<open>x\<close> before the step is within half the bandwidth,
  with any velocity and acceleration, any obstacle texture with channels in \<open>[0, 1]\<close>
  and any time step in \<open>[0, 0.1]\<close> on a canvas that is not empty, the \<open>x\<close> written after
  acceleration, bounce, integration, nudge, reinjection override and wrap is within half
  the bandwidth again. Every \<open>x\<close> the program holds is of that kind: the constructor and
  \<^verbatim>\<open>reset\<close> write such positions (\<open>reset_in_band\<close>) and \<^verbatim>\<open>update\<close> keeps them so
  (\<open>update_in_band\<close>).
\<close>

theorem wrap_closure_from_band:
  assumes "0 < max w h" and "texelsInRange uObstaclesBuffer"
    and "0 \<le> uDt" and "uDt \<le> 0.1"
    and "- 0.5 * POS_BANDWIDTH (worldOf w h) \<le> fst aPos"
    and "fst aPos \<le> 0.5 * POS_BANDWIDTH (worldOf w h)"
  shows "- 0.5 * POS_BANDWIDTH (worldOf w h)
           \<le> fst (fst (updateVert (worldOf w h) uObstaclesBuffer uDt uAcceleration aPos aVel))
       \<and> fst (fst (updateVert (worldOf w h) uObstaclesBuffer uDt uAcceleration aPos aVel))
           \<le> 0.5 * POS_BANDWIDTH (worldOf w h)"
proof -
  from assms(5,6) have "\<bar>fst aPos\<bar> \<le> 0.5 * POS_BANDWIDTH (worldOf w h)" by linarith
  from updateVert_in_band [OF assms(2,3) step_small_enough [OF assms(1,3,4)] this,
      of uAcceleration aVel]
  show ?thesis by linarith
qed

text \<open>
  The statement of C4 on a 100 by 100 canvas with a fresh obstacle texture, at a
  particle near the right edge of the band moving right at full speed, which the wrap
  brings to the left edge.
\<close>

theorem wrap_closure_from_band_witness:
  "(0::nat) < max 100 100 \<and> texelsInRange (initTexture 100 100)
   \<and> (0::real) \<le> 2 / 125 \<and> (2 / 125 :: real) \<le> 0.1
   \<and> - 0.5 * POS_BANDWIDTH (worldOf 100 100) \<le> fst (59.9 :: real, 0 :: real)
   \<and> fst (59.9 :: real, 0 :: real) \<le> 0.5 * POS_BANDWIDTH (worldOf 100 100)
   \<and> - 0.5 * POS_BANDWIDTH (worldOf 100 100)
         \<le> fst (fst (updateVert (worldOf 100 100) (initTexture 100 100) (2 / 125) (0, 0) (59.9, 0) (50, 0)))
   \<and> fst (fst (updateVert (worldOf 100 100) (initTexture 100 100) (2 / 125) (0, 0) (59.9, 0) (50, 0)))
         \<le> 0.5 * POS_BANDWIDTH (worldOf 100 100)"
proof -
  have a: "(0::nat) < max 100 100" by simp
  have b: "texelsInRange (initTexture 100 100)" by (rule texelsInRange_initTexture) simp_all
  have c: "(0::real) \<le> 2 / 125" and d: "(2 / 125 :: real) \<le> 0.1" by simp_all
  have e: "- 0.5 * POS_BANDWIDTH (worldOf 100 100) \<le> fst (59.9 :: real, 0 :: real)"
    and f: "fst (59.9 :: real, 0 :: real) \<le> 0.5 * POS_BANDWIDTH (worldOf 100 100)"
    by (simp_all add: POS_BANDWIDTH_worldOf)
  from wrap_closure_from_band [OF a b c d e f, of "(0, 0)" "(50, 0)"] a b c d e f
  show ?thesis by (simp only: simp_thms)
qed

lemma reset_shaderWorld: "shaderWorld (reset this rnd nb) = shaderWorld this"
  by (simp add: reset_def Let_def split_def)

lemma reset_in_band:
  assumes rnd: "\<forall>k. 0 \<le> rnd k \<and> rnd k < 1"
    and c: "shaderWorld this = worldOf (worldSize_width this) (worldSize_height this)"
    and i: "i < 2"
    and p: "p \<in> set (attribs2 (posVBO (reset this rnd nb) ! i))"
  shows "\<bar>fst p\<bar> \<le> 0.5 * POS_BANDWIDTH (shaderWorld (reset this rnd nb))"
proof -
  let ?W = "real (worldSize_width this)"
  have r: "0 \<le> rnd k" "rnd k < 1" for k using rnd by simp_all
  from i have "i = 0 \<or> i = 1" by auto
  then have "attribs2 (posVBO (reset this rnd nb) ! i)
           = map (\<lambda>k. ((rnd (4 * k) - 0.5) * ?W,
                        (rnd (4 * k + 1) - 0.5) * real (worldSize_height this))) [0 ..< nb]"
    by (auto simp: reset_posVBO Let_def attribs2_concat)
  with p have "p \<in> (\<lambda>k. ((rnd (4 * k) - 0.5) * ?W,
                        (rnd (4 * k + 1) - 0.5) * real (worldSize_height this))) ` set [0 ..< nb]"
    by (simp only: set_map)
  then obtain k where "p = ((rnd (4 * k) - 0.5) * ?W,
                        (rnd (4 * k + 1) - 0.5) * real (worldSize_height this))"
    by (rule imageE)
  then have "fst p = (rnd (4 * k) - 0.5) * ?W" by (simp only: fst_conv)
  then have "\<bar>fst p\<bar> \<le> 0.5 * ?W" using centred_bound [OF r, of ?W "4 * k"] by simp
  moreover have "?W \<le> POS_BANDWIDTH (shaderWorld (reset this rnd nb))"
    using bandwidth_ge_world(1) [of "worldSize_width this" "worldSize_height this"]
    by (simp add: reset_shaderWorld c WORLD_SIZE_worldOf)
  ultimately show ?thesis by linarith
qed

lemma attribs2_captured: "attribs2 (captured vs) = vs"
  by (induction vs) (simp_all add: captured_def)

lemma update_in_band:
  assumes c: "shaderWorld this = worldOf w h" and wh: "0 < max w h"
    and t: "texelsInRange t"
    and dt: "0 \<le> speed this * dt" "speed this * dt \<le> 0.1"
    and gen: "currIndex this < 2" "length (posVBO this) = 2"
    and band: "\<forall>p \<in> set (attribs2 (posVBO this ! currIndex this)).
                 \<bar>fst p\<bar> \<le> 0.5 * POS_BANDWIDTH (worldOf w h)"
  shows "\<forall>p \<in> set (attribs2 (posVBO (update this t dt) ! currIndex (update this t dt))).
           \<bar>fst p\<bar> \<le> 0.5 * POS_BANDWIDTH (worldOf w h)"
proof
  fix p
  let ?vs = "take (nbParts this)
               (zip (attribs2 (posVBO this ! currIndex this)) (attribs2 (velVBO this ! currIndex this)))"
  let ?outs = "map (\<lambda>(aPos, aVel). updateVert (worldOf w h) t (speed this * dt)
                      (acceleration this) aPos aVel) ?vs"
  have n: "(currIndex this + 1) mod 2 < length (posVBO this)" using gen(2) by simp
  have "posVBO (update this t dt) ! currIndex (update this t dt) = captured (map fst ?outs)"
    using n by (simp add: update_def Let_def switchBuffers_def nextIndex_def c)
  moreover assume "p \<in> set (attribs2 (posVBO (update this t dt) ! currIndex (update this t dt)))"
  ultimately have "p \<in> set (map fst ?outs)" by (simp only: attribs2_captured)
  then obtain aPos aVel where v: "(aPos, aVel) \<in> set ?vs"
    and p: "p = fst (updateVert (worldOf w h) t (speed this * dt) (acceleration this) aPos aVel)"
    by auto
  from v have "(aPos, aVel) \<in> set (zip (attribs2 (posVBO this ! currIndex this))
                                       (attribs2 (velVBO this ! currIndex this)))"
    by (rule in_set_takeD)
  then have "aPos \<in> set (attribs2 (posVBO this ! currIndex this))" by (rule set_zip_leftD)
  with band have "\<bar>fst aPos\<bar> \<le> 0.5 * POS_BANDWIDTH (worldOf w h)" by blast
  from updateVert_in_band [OF t dt(1) step_small_enough [OF wh dt] this]
  show "\<bar>fst p\<bar> \<le> 0.5 * POS_BANDWIDTH (worldOf w h)" by (simp only: p)
qed


lemma newParticles_in_band:
  assumes rnd: "\<forall>k. 0 \<le> rnd k \<and> rnd k < 1" and i: "i < 2"
    and p: "p \<in> set (attribs2 (posVBO (newParticles w h rnd nb) ! i))"
  shows "\<bar>fst p\<bar> \<le> 0.5 * POS_BANDWIDTH (worldOf w h)"
proof -
  define this where "this = \<lparr> worldSize_width = w, worldSize_height = h,
                   posBandwidth = 1.2 * real (max w h),
                   maxSpeed = 0.5 * real (min w h),
                   shaderWorld = worldOf w h,
                   nbParts = 0, posVBO = [], velVBO = [], currIndex = 0,
                   acceleration = (0, 0), speed = 0 \<rparr>"
  have c: "shaderWorld this = worldOf (worldSize_width this) (worldSize_height this)"
    by (simp add: this_def)
  have "posVBO (newParticles w h rnd nb) = posVBO (reset this rnd nb)"
    by (simp add: newParticles_def Let_def this_def)
  with p have "p \<in> set (attribs2 (posVBO (reset this rnd nb) ! i))" by simp
  from reset_in_band [OF rnd c i this] show ?thesis
    by (simp add: reset_shaderWorld this_def)
qed

end
